theory Spec2Isabelle
  imports Complex_Main "HOL-Library.AList" "HOL-Library.Sublist" "HOL-Library.Log_Nat"
begin

section \<open>Values\<close>

text \<open>
  The script \<open>scripts/json2vega.py\<close> reads benchmark records with \<open>json.load\<close>, puts them
  in a pandas DataFrame, filters and projects them, and writes the result into a vega-lite
  template. The values it handles are the values \<open>json.load\<close> returns.

  A Python float is an IEEE double. Every finite double is a rational number, so a finite
  float is modelled by its exact value; the three special values are kept apart.
\<close>

datatype pyfloat = Fin rat | PosInf | NegInf | NaN

datatype json =
    JNull
  | JBool bool
  | JInt int
  | JFloat pyfloat
  | JStr string
  | JArr "json list"
  | JObj "(string \<times> json) list"

text \<open>The exceptions of Python that the modelled code can raise.\<close>

datatype error = KeyError | TypeError | ValueError | IOError | OSError | AttributeError

definition ebind :: "error + 'a \<Rightarrow> ('a \<Rightarrow> error + 'b) \<Rightarrow> error + 'b" where
  "ebind m f = (case m of Inl e \<Rightarrow> Inl e | Inr x \<Rightarrow> f x)"

subsection \<open>Floats\<close>

text \<open>
  \<open>numpy.rint\<close> rounds to the nearest integer in the current rounding mode, which is
  round-half-to-even; the result is again a float. On a double the result is exact.
\<close>

definition round_half_even :: "rat \<Rightarrow> int" where
  "round_half_even q =
     (let f = \<lfloor>q\<rfloor>; d = q - of_int f
      in if d < 1 / 2 then f
         else if 1 / 2 < d then f + 1
         else if even f then f else f + 1)"

fun rint :: "pyfloat \<Rightarrow> pyfloat" where
  "rint (Fin q) = Fin (of_int (round_half_even q))"
| "rint PosInf = PosInf"
| "rint NegInf = NegInf"
| "rint NaN = NaN"

text \<open>
  Conversion of a 64-bit integer to a double: exact up to 53 significant bits, above that
  rounded to the nearest double (ties to even).
\<close>

definition float_of_int :: "int \<Rightarrow> rat" where
  "float_of_int n =
     (let e = nat (bitlen \<bar>n\<bar> - 53)
      in of_int (round_half_even (of_int n / 2 ^ e)) * 2 ^ e)"

text \<open>The numeric value of a Python bool, int or float; \<open>None\<close> for every other value.\<close>

fun num_of :: "json \<Rightarrow> pyfloat option" where
  "num_of (JBool b) = Some (Fin (if b then 1 else 0))"
| "num_of (JInt n) = Some (Fin (of_int n))"
| "num_of (JFloat f) = Some f"
| "num_of _ = None"

text \<open>Equality of two floats: \<open>NaN\<close> is equal to nothing, not even to itself.\<close>

fun float_eq :: "pyfloat \<Rightarrow> pyfloat \<Rightarrow> bool" where
  "float_eq NaN _ = False"
| "float_eq _ NaN = False"
| "float_eq a b = (a = b)"

subsection \<open>Dictionaries\<close>

text \<open>
  A Python dict read from JSON is an association list. \<open>d[k]\<close> raises \<open>KeyError\<close> on a
  missing key and \<open>TypeError\<close> when \<open>d\<close> is a string, a list, a number or \<open>None\<close> (a
  string key indexes none of them); \<open>d[k] = v\<close> raises \<open>TypeError\<close> on the same values.
\<close>

fun get_item :: "json \<Rightarrow> string \<Rightarrow> error + json" where
  "get_item (JObj kvs) k = (case map_of kvs k of None \<Rightarrow> Inl KeyError | Some v \<Rightarrow> Inr v)"
| "get_item _ k = Inl TypeError"

fun set_item :: "json \<Rightarrow> string \<Rightarrow> json \<Rightarrow> error + json" where
  "set_item (JObj kvs) k v = Inr (JObj (AList.update k v kvs))"
| "set_item _ k v = Inl TypeError"

text \<open>
  The nested assignment \<open>d[p1]...[pn][k] = v\<close> reads the inner dicts along the path and
  stores into the last one. The objects of a freshly loaded JSON document are not shared,
  so the change is seen along this path only.
\<close>

fun set_nested :: "json \<Rightarrow> string list \<Rightarrow> string \<Rightarrow> json \<Rightarrow> error + json" where
  "set_nested d [] k v = set_item d k v"
| "set_nested d (p # ps) k v =
     ebind (get_item d p) (\<lambda>c. ebind (set_nested c ps k v) (\<lambda>c'. set_item d p c'))"

text \<open>The value below a path of keys, when every key on the way is present.\<close>

fun get_path :: "json \<Rightarrow> string list \<Rightarrow> json option" where
  "get_path d [] = Some d"
| "get_path (JObj kvs) (k # ks) =
     (case map_of kvs k of None \<Rightarrow> None | Some v \<Rightarrow> get_path v ks)"
| "get_path _ (k # ks) = None"

definition has_path :: "json \<Rightarrow> string list \<Rightarrow> bool" where
  "has_path d p = (get_path d p \<noteq> None)"


subsection \<open>Strings and paths\<close>

text \<open>\<open>str.lower\<close> on the ASCII letters; \<open>str.startswith\<close> is \<^const>\<open>prefix\<close>.\<close>

definition lower_char :: "char \<Rightarrow> char" where
  "lower_char c =
     (if (65::nat) \<le> of_char c \<and> of_char c \<le> (90::nat)
      then char_of (of_char c + (32::nat)) else c)"

definition lower :: "string \<Rightarrow> string" where
  "lower s = map lower_char s"

definition startswith :: "string \<Rightarrow> string \<Rightarrow> bool" where
  "startswith s p = prefix p s"

text \<open>\<open>os.path.basename\<close>: what follows the last slash.\<close>

definition basename :: "string \<Rightarrow> string" where
  "basename p = rev (takeWhile (\<lambda>c. c \<noteq> CHR ''/'') (rev p))"

text \<open>
  The second component of \<open>os.path.splitext\<close>: the part of the base name from its last
  dot on, unless only dots come before that dot (then the name has no extension).
\<close>

definition splitext_ext :: "string \<Rightarrow> string" where
  "splitext_ext p =
     (let b = basename p;
          stem = rev (tl (dropWhile (\<lambda>c. c \<noteq> CHR ''.'') (rev b)));
          ext = CHR ''.'' # rev (takeWhile (\<lambda>c. c \<noteq> CHR ''.'') (rev b))
      in if CHR ''.'' \<in> set b \<and> (\<exists>c \<in> set stem. c \<noteq> CHR ''.'') then ext else [])"

section \<open>The data frame library\<close>

text \<open>
  The operations of pandas and numpy that the script calls, with the behaviour the
  library documents. A frame has an index (one label per row, with an optional name), an
  ordered list of typed columns, and its rows; a row is its label and its cells, one per
  column. A cell that a record does not provide is \<open>NaN\<close>.
\<close>

datatype dtype = DBool | DInt64 | DUInt64 | DFloat64 | DFloat16 | DObject

type_synonym pyrecord = "(string \<times> json) list"

record dataframe =
  index_name :: "string option"
  index_dtype :: dtype
  columns :: "(string \<times> dtype) list"
  rows :: "(json \<times> pyrecord) list"

record series =
  s_name :: string
  s_dtype :: dtype
  s_index_name :: "string option"
  s_index_dtype :: dtype
  s_values :: "(json \<times> json) list"

definition cell :: "pyrecord \<Rightarrow> string \<Rightarrow> json" where
  "cell r k = (case map_of r k of None \<Rightarrow> JFloat NaN | Some v \<Rightarrow> v)"

text \<open>
  The storage type of a column of Python objects (\<open>lib.maybe_convert_objects\<close>). A
  string, a list or a dict makes the column \<open>object\<close>, and so does an integer outside
  the range from \<open>-2^63\<close> to \<open>2^64 - 1\<close>, or an integer from \<open>2^63\<close> on beside a
  negative one. Booleans alone make it \<open>bool\<close>, booleans mixed with anything else
  \<open>object\<close>. Numbers with a float, a \<open>NaN\<close> or a \<open>None\<close> among them make it \<open>float64\<close>;
  integers alone make it \<open>uint64\<close> when one of them is \<open>2^63\<close> or more, \<open>int64\<close>
  otherwise.
\<close>

fun is_objectish :: "json \<Rightarrow> bool" where
  "is_objectish (JStr s) = True"
| "is_objectish (JArr xs) = True"
| "is_objectish (JObj kvs) = True"
| "is_objectish (JInt n) = (n < - (2 ^ 63) \<or> 2 ^ 64 \<le> n)"
| "is_objectish _ = False"

fun is_big :: "json \<Rightarrow> bool" where
  "is_big (JInt n) = (2 ^ 63 \<le> n)"
| "is_big _ = False"

fun is_negative :: "json \<Rightarrow> bool" where
  "is_negative (JInt n) = (n < 0)"
| "is_negative _ = False"

fun is_bool :: "json \<Rightarrow> bool" where
  "is_bool (JBool b) = True"
| "is_bool _ = False"

fun is_int :: "json \<Rightarrow> bool" where
  "is_int (JInt n) = True"
| "is_int _ = False"

fun is_float :: "json \<Rightarrow> bool" where
  "is_float (JFloat f) = True"
| "is_float _ = False"

fun is_str :: "json \<Rightarrow> bool" where
  "is_str (JStr s) = True"
| "is_str _ = False"

definition infer_dtype :: "json list \<Rightarrow> dtype" where
  "infer_dtype vs =
     (if list_ex is_objectish vs \<or> (list_ex is_big vs \<and> list_ex is_negative vs) then DObject
      else if list_ex is_bool vs then (if list_all is_bool vs then DBool else DObject)
      else if list_ex is_float vs then DFloat64
      else if list_ex is_int vs
           then (if list_ex (\<lambda>v. v = JNull) vs then DFloat64
                 else if list_ex is_big vs then DUInt64 else DInt64)
      else DObject)"

text \<open>What a value becomes when it is stored in a column of the given type.\<close>

fun coerce :: "dtype \<Rightarrow> json \<Rightarrow> json" where
  "coerce DFloat64 (JInt n) = JFloat (Fin (float_of_int n))"
| "coerce DFloat64 JNull = JFloat NaN"
| "coerce d v = v"

text \<open>
  \<open>pandas.DataFrame(records)\<close> for a list of dicts: one column per key that occurs, one
  row per record, labelled by position. The columns stand in the order in which their
  keys first appear.
\<close>

definition DataFrame :: "pyrecord list \<Rightarrow> dataframe" where
  "DataFrame recs =
     (let names = rev (remdups (rev (concat (map (map fst) recs))));
          cols = map (\<lambda>k. (k, infer_dtype (map (\<lambda>r. cell r k) recs))) names
      in \<lparr>index_name = None, index_dtype = DInt64, columns = cols,
          rows = map (\<lambda>(i, r). (JInt (int i), map (\<lambda>(k, d). (k, coerce d (cell r k))) cols))
                     (enumerate 0 recs)\<rparr>)"

text \<open>\<open>df[key]\<close>: the column as a series, \<open>KeyError\<close> when there is no such column.\<close>

definition getitem :: "dataframe \<Rightarrow> string \<Rightarrow> error + series" where
  "getitem df key =
     (case map_of (columns df) key of
        None \<Rightarrow> Inl KeyError
      | Some d \<Rightarrow> Inr \<lparr>s_name = key, s_dtype = d, s_index_name = index_name df,
                       s_index_dtype = index_dtype df,
                       s_values = map (\<lambda>(l, cs). (l, cell cs key)) (rows df)\<rparr>)"

text \<open>
  A predicate value is a Python scalar. Python's \<open>==\<close> between a value and a scalar
  compares numbers (booleans included) by their exact value and strings with strings;
  everything else is unequal, and \<open>NaN\<close> equals nothing.
\<close>

datatype scalar = SBool bool | SInt int | SFloat pyfloat | SStr string

fun py_eq :: "json \<Rightarrow> scalar \<Rightarrow> bool" where
  "py_eq c (SStr s) = (case c of JStr t \<Rightarrow> t = s | _ \<Rightarrow> False)"
| "py_eq c (SBool b) =
     (case num_of c of None \<Rightarrow> False | Some a \<Rightarrow> float_eq a (Fin (if b then 1 else 0)))"
| "py_eq c (SInt n) =
     (case num_of c of None \<Rightarrow> False | Some a \<Rightarrow> float_eq a (Fin (of_int n)))"
| "py_eq c (SFloat f) =
     (case num_of c of None \<Rightarrow> False | Some a \<Rightarrow> float_eq a f)"

text \<open>
  The value of a cell and of a scalar as a double, and as an integer when it is a
  boolean or an integer.
\<close>

fun double_of :: "json \<Rightarrow> pyfloat option" where
  "double_of (JBool b) = Some (Fin (if b then 1 else 0))"
| "double_of (JInt n) = Some (Fin (float_of_int n))"
| "double_of (JFloat f) = Some f"
| "double_of _ = None"

fun int_of :: "json \<Rightarrow> int option" where
  "int_of (JBool b) = Some (if b then 1 else 0)"
| "int_of (JInt n) = Some n"
| "int_of _ = None"

fun scalar_double :: "scalar \<Rightarrow> pyfloat option" where
  "scalar_double (SBool b) = Some (Fin (if b then 1 else 0))"
| "scalar_double (SInt n) = Some (Fin (float_of_int n))"
| "scalar_double (SFloat f) = Some f"
| "scalar_double (SStr s) = None"

fun scalar_int :: "scalar \<Rightarrow> int option" where
  "scalar_int (SBool b) = Some (if b then 1 else 0)"
| "scalar_int (SInt n) = Some n"
| "scalar_int _ = None"

text \<open>
  \<open>series == value\<close> compares cell by cell. In a column of objects it is Python's
  \<open>==\<close>. In a numeric column numpy brings both sides to one type first: a string equals
  nothing; when the column holds floats or the scalar is a float, both sides are compared
  as doubles (an integer is rounded to the nearest double); booleans and integers
  against a boolean or an integer are compared as integers.
\<close>

definition cell_eq :: "dtype \<Rightarrow> json \<Rightarrow> scalar \<Rightarrow> bool" where
  "cell_eq d c v =
     (if d = DObject then py_eq c v
      else if d = DFloat64 \<or> d = DFloat16 \<or> scalar_int v = None
           then (case (double_of c, scalar_double v) of
                   (Some a, Some b) \<Rightarrow> float_eq a b
                 | _ \<Rightarrow> False)
           else (case (int_of c, scalar_int v) of
                   (Some a, Some b) \<Rightarrow> a = b
                 | _ \<Rightarrow> False))"

definition series_eq :: "series \<Rightarrow> scalar \<Rightarrow> bool list" where
  "series_eq s v = map (\<lambda>(l, c). cell_eq (s_dtype s) c v) (s_values s)"

text \<open>
  \<open>df.loc[mask]\<close> for a boolean mask over the frame's own rows: the rows where the mask
  holds, in their order, with their labels and the column types as they were.
\<close>

definition loc_mask :: "dataframe \<Rightarrow> bool list \<Rightarrow> dataframe" where
  "loc_mask df msk = df\<lparr>rows := map snd (filter fst (zip msk (rows df)))\<rparr>"

text \<open>
  \<open>df.set_index(key)\<close>: the column becomes the index and leaves the columns; rows with
  equal labels are all kept. An index is typed \<open>int64\<close>, \<open>uint64\<close>, \<open>float64\<close> or
  \<open>object\<close>.
\<close>

definition index_type :: "dtype \<Rightarrow> dtype" where
  "index_type d = (if d = DInt64 \<or> d = DUInt64 \<or> d = DFloat64 then d else DObject)"

definition set_index :: "dataframe \<Rightarrow> string \<Rightarrow> error + dataframe" where
  "set_index df key =
     (case map_of (columns df) key of
        None \<Rightarrow> Inl KeyError
      | Some d \<Rightarrow>
          Inr \<lparr>index_name = Some key,
               index_dtype = index_type d,
               columns = filter (\<lambda>(c, t). c \<noteq> key) (columns df),
               rows = map (\<lambda>(l, cs). (cell cs key, filter (\<lambda>(c, v). c \<noteq> key) cs)) (rows df)\<rparr>)"

text \<open>\<open>pandas.DataFrame(series)\<close>: a frame of one column with the index of the series.\<close>

definition frame_of_series :: "series \<Rightarrow> dataframe" where
  "frame_of_series s =
     \<lparr>index_name = s_index_name s, index_dtype = s_index_dtype s,
      columns = [(s_name s, s_dtype s)],
      rows = map (\<lambda>(l, v). (l, [(s_name s, v)])) (s_values s)\<rparr>"

text \<open>
  \<open>df.reset_index()\<close>: the index becomes the first column, under its name (\<open>index\<close> or
  \<open>level_0\<close> when it has none), and the rows are labelled by position again. Labels
  of an \<open>object\<close> index are converted as a column of objects is. A name that is already a
  column is a \<open>ValueError\<close>.
\<close>

definition reset_index :: "dataframe \<Rightarrow> error + dataframe" where
  "reset_index df =
     (let name = (case index_name df of
                    Some n \<Rightarrow> n
                  | None \<Rightarrow> if ''index'' \<in> set (map fst (columns df)) then ''level_0''
                            else ''index'');
          d = (if index_dtype df = DObject then infer_dtype (map fst (rows df))
               else index_dtype df)
      in if name \<in> set (map fst (columns df)) then Inl ValueError
         else Inr \<lparr>index_name = None, index_dtype = DInt64,
                   columns = (name, d) # columns df,
                   rows = map (\<lambda>(i, (l, cs)).
                                 (JInt (int i),
                                  (name, if index_dtype df = DObject then coerce d l else l) # cs))
                              (enumerate 0 (rows df))\<rparr>)"

text \<open>\<open>df.to_dict(orient='records')\<close>: one dict per row, in row order.\<close>

definition to_dict_records :: "dataframe \<Rightarrow> json list" where
  "to_dict_records df = map (\<lambda>(l, cs). JObj cs) (rows df)"

text \<open>\<open>df[[k1, ..., kn]]\<close>: the named columns in the order given, all of which must exist.\<close>

definition getitem_list :: "dataframe \<Rightarrow> string list \<Rightarrow> error + dataframe" where
  "getitem_list df keys =
     (case those (map (\<lambda>k. map_option (Pair k) (map_of (columns df) k)) keys) of
        None \<Rightarrow> Inl KeyError
      | Some cols \<Rightarrow>
          Inr (df\<lparr>columns := cols,
                  rows := map (\<lambda>(l, cs). (l, map (\<lambda>k. (k, cell cs k)) keys)) (rows df)\<rparr>))"

text \<open>
  \<open>numpy.rint(series)\<close>: floats are rounded, integers converted to floats, booleans
  become the half-precision floats 0 and 1. A column of objects has no numeric loop:
  numpy asks each element for a method \<open>rint\<close>, which no JSON value has, and raises
  \<open>TypeError\<close>.
\<close>

fun rint_cell :: "json \<Rightarrow> json option" where
  "rint_cell (JFloat f) = Some (JFloat (rint f))"
| "rint_cell (JInt n) = Some (JFloat (rint (Fin (float_of_int n))))"
| "rint_cell (JBool b) = Some (JFloat (Fin (if b then 1 else 0)))"
| "rint_cell _ = None"

definition numpy_rint :: "series \<Rightarrow> error + series" where
  "numpy_rint s =
     (if s_dtype s = DObject then (if s_values s = [] then Inr s else Inl TypeError)
      else case those (map (\<lambda>(l, c). rint_cell c) (s_values s)) of
             None \<Rightarrow> Inl TypeError
           | Some vs \<Rightarrow>
               Inr (s\<lparr>s_dtype := (if s_dtype s = DBool \<or> s_dtype s = DFloat16 then DFloat16
                                   else DFloat64),
                      s_values := zip (map fst (s_values s)) vs\<rparr>))"

text \<open>
  \<open>df.assign(name=series)\<close> for a series over the frame's own rows: the column is
  replaced when it exists and appended otherwise.
\<close>

definition assign :: "dataframe \<Rightarrow> string \<Rightarrow> series \<Rightarrow> dataframe" where
  "assign df name s =
     df\<lparr>columns := AList.update name (s_dtype s) (columns df),
        rows := map (\<lambda>((l, cs), (l', v)). (l, AList.update name v cs))
                    (zip (rows df) (s_values s))\<rparr>"


section \<open>The graph classes\<close>

text \<open>
  \<open>VegaGraphBase\<close> is abstract; the classes that can be instantiated are
  \<open>VegaGraphBarBase\<close>, its subclasses \<open>VegaGraphBar\<close> and \<open>VegaGraphScatter\<close>, and
  \<open>VegaGraphHeatmap\<close>. An object is its identity, its class and its attributes.
\<close>

datatype graph_class = VegaGraphBarBase | VegaGraphBar | VegaGraphScatter | VegaGraphHeatmap

record vega_graph =
  oid :: nat
  cls :: graph_class
  output_path :: string
  input_path :: string
  config_dir :: string
  engine_name :: string
  algorithm_name :: string
  file_suffix :: string
  graph_type :: string
  conditions_dict :: "(string \<times> scalar) list"
  axes_vars :: "(string \<times> string) list"
  x_axis_label :: string
  y_axis_label :: string

text \<open>\<open>d[key]\<close> on a dict of the caller.\<close>

definition lookup :: "(string \<times> 'a) list \<Rightarrow> string \<Rightarrow> error + 'a" where
  "lookup d key = (case map_of d key of None \<Rightarrow> Inl KeyError | Some v \<Rightarrow> Inr v)"

fun class_graph_type :: "graph_class \<Rightarrow> string" where
  "class_graph_type VegaGraphBarBase = ''barbase''"
| "class_graph_type VegaGraphBar = ''bar''"
| "class_graph_type VegaGraphScatter = ''scatter''"
| "class_graph_type VegaGraphHeatmap = ''heatmap''"

text \<open>
  The constructors: every class stores its arguments, reads the five labels and then
  sets \<open>graph_type\<close> to its own name.
\<close>

definition init :: "graph_class \<Rightarrow> nat \<Rightarrow> string \<Rightarrow> string \<Rightarrow> string \<Rightarrow> (string \<times> string) list \<Rightarrow>
    (string \<times> scalar) list \<Rightarrow> (string \<times> string) list \<Rightarrow> error + vega_graph" where
  "init c i outp inp cfg labels conditions axes =
     ebind (lookup labels ''x_axis'') (\<lambda>xl.
     ebind (lookup labels ''y_axis'') (\<lambda>yl.
     ebind (lookup labels ''engine_name'') (\<lambda>en.
     ebind (lookup labels ''algorithm_name'') (\<lambda>an.
     ebind (lookup labels ''file_suffix'') (\<lambda>fs.
       Inr \<lparr>oid = i, cls = c, output_path = outp, input_path = inp, config_dir = cfg,
            engine_name = en, algorithm_name = an, file_suffix = fs,
            graph_type = class_graph_type c, conditions_dict = conditions,
            axes_vars = axes, x_axis_label = xl, y_axis_label = yl\<rparr>)))))"

subsection \<open>The list of loaded records\<close>

text \<open>
  \<open>__input_jsons = []\<close> stands in the body of the class \<open>VegaGraphBase\<close>: the class holds
  one list object. \<open>self.__input_jsons += [r]\<close> looks the attribute up (on the object
  first, then on the class), extends the list found in place, and binds the object's
  attribute to that same list. The store keeps the list objects by address, the address
  bound to the class attribute, and the addresses bound to the objects' attributes.
\<close>

record store =
  lists :: "nat \<Rightarrow> pyrecord list"
  class_attr :: nat
  inst_attr :: "nat \<Rightarrow> nat option"

definition initial_store :: store where
  "initial_store = \<lparr>lists = (\<lambda>a. []), class_attr = 0, inst_attr = (\<lambda>i. None)\<rparr>"

definition input_jsons_ref :: "store \<Rightarrow> vega_graph \<Rightarrow> nat" where
  "input_jsons_ref st self =
     (case inst_attr st (oid self) of Some a \<Rightarrow> a | None \<Rightarrow> class_attr st)"

definition input_jsons :: "store \<Rightarrow> vega_graph \<Rightarrow> pyrecord list" where
  "input_jsons st self = lists st (input_jsons_ref st self)"

definition iadd_input_jsons :: "vega_graph \<Rightarrow> pyrecord \<Rightarrow> store \<Rightarrow> store" where
  "iadd_input_jsons self r st =
     (let a = input_jsons_ref st self
      in st\<lparr>lists := (lists st)(a := lists st a @ [r]),
            inst_attr := (inst_attr st)(oid self := Some a)\<rparr>)"

subsection \<open>The environment\<close>

text \<open>
  What the script reaches outside itself: the directory listing (\<open>os.listdir\<close>, an
  \<open>OSError\<close> when the directory is missing), \<open>json.load(open(path))\<close> for a record file
  and for a configuration file (\<open>IOError\<close> when the file cannot be opened, \<open>ValueError\<close>
  when it is not JSON), \<open>json.dumps\<close>, and the program \<open>vl2vg\<close>, which maps what it reads
  on its standard input to what it writes on its standard output and its exit status.
  Record files hold one JSON object each.
\<close>

record env =
  listdir :: "string \<Rightarrow> string list option"
  read_record :: "string \<Rightarrow> error + pyrecord"
  read_json_file :: "string \<Rightarrow> error + json"
  dumps :: "json \<Rightarrow> error + string"
  vl2vg :: "string \<Rightarrow> string \<times> int"

datatype effect = Popen string | Communicate string

subsection \<open>\<open>read_json\<close>\<close>

definition eligible :: "vega_graph \<Rightarrow> string \<Rightarrow> bool" where
  "eligible self f =
     (splitext_ext f = ''.json'' \<and> startswith (basename f) (algorithm_name self) \<and>
      \<not> startswith (basename f) ''_'')"

fun read_json_loop :: "env \<Rightarrow> vega_graph \<Rightarrow> string list \<Rightarrow> store \<Rightarrow> error option \<times> store" where
  "read_json_loop e self [] st = (None, st)"
| "read_json_loop e self (f # fs) st =
     (if eligible self f
      then (case read_record e (input_path self @ f) of
              Inl err \<Rightarrow> (Some err, st)
            | Inr r \<Rightarrow> read_json_loop e self fs (iadd_input_jsons self r st))
      else read_json_loop e self fs st)"

definition read_json :: "env \<Rightarrow> vega_graph \<Rightarrow> store \<Rightarrow> error option \<times> store" where
  "read_json e self st =
     (case listdir e (input_path self) of
        None \<Rightarrow> (Some OSError, st)
      | Some fs \<Rightarrow> read_json_loop e self fs st)"

subsection \<open>\<open>read_config\<close> and \<open>pipe_vl2vg\<close>\<close>

definition config_path :: "vega_graph \<Rightarrow> string" where
  "config_path self = config_dir self @ ''/'' @ lower (graph_type self) @ ''_config.json''"

definition read_config :: "env \<Rightarrow> vega_graph \<Rightarrow> error + json" where
  "read_config e self = read_json_file e (config_path self)"

text \<open>
  \<open>pipe_vl2vg\<close> starts the process, hands it the serialised description and returns
  what the process wrote on its standard output; it looks neither at the exit status nor
  at the length of the output.
\<close>

definition pipe_vl2vg :: "env \<Rightarrow> json \<Rightarrow> (error + string) \<times> effect list" where
  "pipe_vl2vg e json_in =
     (case dumps e json_in of
        Inl err \<Rightarrow> (Inl err, [Popen ''vl2vg''])
      | Inr s \<Rightarrow> (Inr (fst (vl2vg e s)), [Popen ''vl2vg'', Communicate s]))"

subsection \<open>\<open>parse_jsons\<close>\<close>

definition parse_jsons_base :: "store \<Rightarrow> vega_graph \<Rightarrow> dataframe" where
  "parse_jsons_base st self = DataFrame (input_jsons st self)"

text \<open>
  The loop over \<open>conditions_dict\<close> (lines 175 to 177 and 315 to 317): each entry keeps
  the rows of the frame whose cell in the column of the key equals the value.
\<close>

fun restrict_conditions :: "dataframe \<Rightarrow> (string \<times> scalar) list \<Rightarrow> error + dataframe" where
  "restrict_conditions df [] = Inr df"
| "restrict_conditions df ((key, v) # rest) =
     ebind (getitem df key) (\<lambda>s. restrict_conditions (loc_mask df (series_eq s v)) rest)"

text \<open>Lines 180 to 183: the \<open>x\<close> column becomes the index, the \<open>y\<close> column is selected,
  and the index becomes a column again.\<close>

definition project_axes :: "dataframe \<Rightarrow> vega_graph \<Rightarrow> error + dataframe" where
  "project_axes df self =
     ebind (lookup (axes_vars self) ''x'') (\<lambda>x.
     ebind (set_index df x) (\<lambda>dfi.
     ebind (lookup (axes_vars self) ''y'') (\<lambda>y.
     ebind (getitem dfi y) (\<lambda>s.
       reset_index (frame_of_series s)))))"

text \<open>Lines 193 to 197: the type of each axis, from the storage type of its column.\<close>

fun axis_types :: "json \<Rightarrow> dataframe \<Rightarrow> (string \<times> string) list \<Rightarrow> string list \<Rightarrow> error + json" where
  "axis_types bar df axes [] = Inr bar"
| "axis_types bar df axes (key # keys) =
     ebind (lookup axes key) (\<lambda>field.
     ebind (getitem df field) (\<lambda>s.
     ebind (set_nested bar [''encoding'', key] ''type''
              (JStr (if s_dtype s = DFloat64 then ''quantitative'' else ''ordinal''))) (\<lambda>bar'.
       axis_types bar' df axes keys)))"

text \<open>Lines 187 to 199: the projected records and the axis attributes are stored into
  the description read from the configuration file.\<close>

definition merge_bar :: "json \<Rightarrow> dataframe \<Rightarrow> vega_graph \<Rightarrow> error + json" where
  "merge_bar bar df self =
     ebind (set_item bar ''data'' (JObj [(''values'', JArr (to_dict_records df))])) (\<lambda>b1.
     ebind (lookup (axes_vars self) ''y'') (\<lambda>y.
     ebind (set_nested b1 [''encoding'', ''y''] ''field'' (JStr y)) (\<lambda>b2.
     ebind (set_nested b2 [''encoding'', ''y''] ''axis''
              (JObj [(''title'', JStr (y_axis_label self))])) (\<lambda>b3.
     ebind (axis_types b3 df (axes_vars self) (map fst (axes_vars self))) (\<lambda>b4.
     ebind (lookup (axes_vars self) ''x'') (\<lambda>x.
     ebind (set_nested b4 [''encoding'', ''x''] ''field'' (JStr x)) (\<lambda>b5.
       set_nested b5 [''encoding'', ''x''] ''axis''
         (JObj [(''title'', JStr (x_axis_label self))]))))))))"

text \<open>The paths that lines 187 to 199 assign, in the order of the assignments.\<close>

definition assigned_slots :: "vega_graph \<Rightarrow> string list list" where
  "assigned_slots self =
     [[''data''], [''encoding'', ''y'', ''field''], [''encoding'', ''y'', ''axis'']] @
     map (\<lambda>key. [''encoding'', key, ''type'']) (map fst (axes_vars self)) @
     [[''encoding'', ''x'', ''field''], [''encoding'', ''x'', ''axis'']]"

definition parse_jsons_barbase :: "env \<Rightarrow> store \<Rightarrow> vega_graph \<Rightarrow> error + json" where
  "parse_jsons_barbase e st self =
     ebind (restrict_conditions (parse_jsons_base st self) (conditions_dict self)) (\<lambda>df1.
     ebind (project_axes df1 self) (\<lambda>df2.
     ebind (read_config e self) (\<lambda>bar.
       merge_bar bar df2 self)))"

text \<open>
  Lines 320 to 322 of the heat map: four fixed columns and the rounded \<open>m_teps\<close>. Line
  323 prints the frame; the standard output of the script is not part of the model.
\<close>

definition project_heatmap :: "dataframe \<Rightarrow> error + dataframe" where
  "project_heatmap df =
     ebind (getitem_list df [''dataset'', ''m_teps'', ''alpha'', ''beta'']) (\<lambda>df1.
     ebind (getitem df1 ''m_teps'') (\<lambda>s.
     ebind (numpy_rint s) (\<lambda>r.
       Inr (assign df1 ''m_teps_rounded'' r))))"

definition parse_jsons_heatmap :: "env \<Rightarrow> store \<Rightarrow> vega_graph \<Rightarrow> error + json" where
  "parse_jsons_heatmap e st self =
     ebind (restrict_conditions (parse_jsons_base st self) (conditions_dict self)) (\<lambda>df1.
     ebind (project_heatmap df1) (\<lambda>df2.
     ebind (read_config e self) (\<lambda>heatmap.
       set_item heatmap ''data'' (JObj [(''values'', JArr (to_dict_records df2))]))))"

text \<open>\<open>VegaGraphBar\<close> and \<open>VegaGraphScatter\<close> call the method of \<open>VegaGraphBarBase\<close>.\<close>

fun parse_jsons :: "env \<Rightarrow> store \<Rightarrow> vega_graph \<Rightarrow> error + json" where
  "parse_jsons e st self =
     (case cls self of
        VegaGraphHeatmap \<Rightarrow> parse_jsons_heatmap e st self
      | _ \<Rightarrow> parse_jsons_barbase e st self)"

subsection \<open>\<open>run\<close>\<close>

text \<open>
  \<open>run\<close> loads the records, builds the description and pipes it through \<open>vl2vg\<close>
  (the module \<open>utils\<close> that its first line imports is taken to be there). Its
  last line calls \<open>self.write_to_file\<close>; the function \<open>write_to_file\<close> was imported
  into a local name, no class defines a method of that name, so the attribute lookup
  raises \<open>AttributeError\<close>. The result is the value or the exception, the store, and the
  effects on the outside in their order.
\<close>

definition run :: "env \<Rightarrow> vega_graph \<Rightarrow> store \<Rightarrow> (error + string) \<times> store \<times> effect list" where
  "run e self st =
     (case read_json e self st of
        (Some err, st1) \<Rightarrow> (Inl err, st1, [])
      | (None, st1) \<Rightarrow>
          (case parse_jsons e st1 self of
             Inl err \<Rightarrow> (Inl err, st1, [])
           | Inr graph \<Rightarrow>
               (case pipe_vl2vg e graph of
                  (Inl err, fx) \<Rightarrow> (Inl err, st1, fx)
                | (Inr vg, fx) \<Rightarrow> (Inl AttributeError, st1, fx))))"


section \<open>The equality of the specification\<close>

text \<open>
  The specification asks for value equality between a field of a record and the required
  value of the predicate set. Two scalar values are equal when they are the same string
  or numbers of the same value; as in Python a boolean counts as the number 0 or 1, and
  \<open>NaN\<close> equals nothing. This is the relation the filter is compared with.
\<close>

fun scalar_value :: "scalar \<Rightarrow> pyfloat option" where
  "scalar_value (SBool b) = Some (Fin (if b then 1 else 0))"
| "scalar_value (SInt n) = Some (Fin (of_int n))"
| "scalar_value (SFloat f) = Some f"
| "scalar_value (SStr s) = None"

fun value_equal :: "json \<Rightarrow> scalar \<Rightarrow> bool" where
  "value_equal (JStr t) (SStr s) = (t = s)"
| "value_equal (JStr t) v = False"
| "value_equal c (SStr s) = False"
| "value_equal c v =
     (case (num_of c, scalar_value v) of
        (Some a, Some b) \<Rightarrow> a = b \<and> a \<noteq> NaN
      | _ \<Rightarrow> False)"

section \<open>Example inputs\<close>

text \<open>Three benchmark records with the fields the heat map reads.\<close>

definition ex_heat_records :: "pyrecord list" where
  "ex_heat_records =
     [[(''dataset'', JStr ''road''), (''m_teps'', JFloat (Fin (63 / 5))),
       (''alpha'', JFloat (Fin (1 / 10))), (''beta'', JInt 2)],
      [(''dataset'', JStr ''soc''), (''m_teps'', JFloat (Fin (25 / 2))),
       (''alpha'', JFloat (Fin (1 / 5))), (''beta'', JInt 4)],
      [(''dataset'', JStr ''web''), (''m_teps'', JFloat (Fin (27 / 2))),
       (''alpha'', JFloat (Fin (3 / 10))), (''beta'', JInt 8)]]"

text \<open>The two records, the predicate set and the axis mapping of the bar chart example.\<close>

definition ex_records :: "pyrecord list" where
  "ex_records =
     [[(''algorithm'', JStr ''BFS''), (''undirected'', JBool True),
       (''mark_predecessors'', JBool True), (''dataset'', JStr ''road''),
       (''m_teps'', JFloat (Fin (62 / 5)))],
      [(''algorithm'', JStr ''BFS''), (''undirected'', JBool False),
       (''mark_predecessors'', JBool True), (''dataset'', JStr ''soc''),
       (''m_teps'', JFloat (Fin (31 / 10)))]]"

definition ex_conditions :: "(string \<times> scalar) list" where
  "ex_conditions =
     [(''algorithm'', SStr ''BFS''), (''undirected'', SBool True),
      (''mark_predecessors'', SBool True)]"

text \<open>Records of which one lacks a field.\<close>

definition ex_partial_records :: "pyrecord list" where
  "ex_partial_records =
     [[(''algorithm'', JStr ''BFS''), (''undirected'', JBool True)],
      [(''algorithm'', JStr ''BFS'')]]"

text \<open>A bar chart object as its constructor builds it.\<close>

definition ex_bar :: vega_graph where
  "ex_bar =
     \<lparr>oid = 1, cls = VegaGraphBar, output_path = ''output/'', input_path = ''in/'',
      config_dir = ''config_files/'', engine_name = ''g'', algorithm_name = ''BFS'',
      file_suffix = ''0'', graph_type = ''bar'', conditions_dict = ex_conditions,
      axes_vars = [(''x'', ''dataset''), (''y'', ''m_teps'')],
      x_axis_label = ''Datasets'', y_axis_label = ''MTEPS''\<rparr>"

text \<open>Two records with the same \<open>x\<close> value.\<close>

definition ex_dup_records :: "pyrecord list" where
  "ex_dup_records =
     [[(''dataset'', JStr ''road''), (''m_teps'', JFloat (Fin (3 / 2)))],
      [(''dataset'', JStr ''road''), (''m_teps'', JFloat (Fin (5 / 2)))]]"

text \<open>
  A template with keys below \<open>data\<close> and below an axis entry, the frame that the example
  records project to, and the description that the merge builds from the two.
\<close>

definition ex_template :: json where
  "ex_template =
     JObj [(''mark'', JStr ''bar''),
           (''data'', JObj [(''url'', JStr ''data.json'')]),
           (''encoding'',
              JObj [(''x'', JObj [(''axis'', JObj [(''grid'', JBool False)])]),
                    (''y'', JObj [(''scale'', JObj [(''zero'', JBool True)])])])]"

definition ex_projected :: dataframe where
  "ex_projected =
     \<lparr>index_name = None, index_dtype = DInt64,
      columns = [(''dataset'', DObject), (''m_teps'', DFloat64)],
      rows = [(JInt 0, [(''dataset'', JStr ''road''), (''m_teps'', JFloat (Fin (62 / 5)))])]\<rparr>"

definition ex_merged :: json where
  "ex_merged =
     JObj [(''mark'', JStr ''bar''),
           (''data'', JObj [(''values'',
              JArr [JObj [(''dataset'', JStr ''road''), (''m_teps'', JFloat (Fin (62 / 5)))]])]),
           (''encoding'',
              JObj [(''x'', JObj [(''axis'', JObj [(''title'', JStr ''Datasets'')]),
                                (''type'', JStr ''ordinal''), (''field'', JStr ''dataset'')]),
                    (''y'', JObj [(''scale'', JObj [(''zero'', JBool True)]),
                                (''field'', JStr ''m_teps''),
                                (''axis'', JObj [(''title'', JStr ''MTEPS'')]),
                                (''type'', JStr ''quantitative'')])])]"

text \<open>
  An environment with two input directories and the configuration file of the bar chart,
  in which \<open>vl2vg\<close> writes nothing and exits with status 1; a store whose class list
  holds given records.
\<close>

definition ex_env :: env where
  "ex_env =
     \<lparr>listdir = (\<lambda>d. if d = ''in/''
                       then Some [''BFS_road.json'', ''_BFS_out.json'', ''BFS_soc.json'',
                                  ''SSSP_road.json'', ''BFS_notes.txt'']
                       else if d = ''in2/'' then Some [''BFS_web.json''] else None),
      read_record = (\<lambda>p. if p = ''in/BFS_road.json'' then Inr (ex_records ! 0)
                          else if p = ''in/BFS_soc.json'' then Inr (ex_records ! 1)
                          else if p = ''in2/BFS_web.json'' then Inr (ex_heat_records ! 2)
                          else Inl IOError),
      read_json_file = (\<lambda>p. if p = ''config_files//bar_config.json'' then Inr ex_template
                             else Inl IOError),
      dumps = (\<lambda>j. Inr ''{}''),
      vl2vg = (\<lambda>s. ([], 1))\<rparr>"

definition ex_store_of :: "pyrecord list \<Rightarrow> store" where
  "ex_store_of recs =
     \<lparr>lists = (\<lambda>a. if a = 0 then recs else []), class_attr = 0, inst_attr = (\<lambda>i. None)\<rparr>"

text \<open>Records whose \<open>m_teps\<close> is a float in one and a string in the other.\<close>

definition ex_mixed_records :: "pyrecord list" where
  "ex_mixed_records =
     [[(''algorithm'', JStr ''BFS''), (''dataset'', JStr ''road''),
       (''m_teps'', JFloat (Fin (62 / 5)))],
      [(''algorithm'', JStr ''SSSP''), (''dataset'', JStr ''soc''),
       (''m_teps'', JStr ''n/a'')]]"

definition ex_bar_bfs :: vega_graph where
  "ex_bar_bfs = ex_bar\<lparr>conditions_dict := [(''algorithm'', SStr ''BFS'')]\<rparr>"

definition ex_restricted :: dataframe where
  "ex_restricted =
    \<lparr>index_name = None, index_dtype = DInt64,
     columns = [(''algorithm'', DObject), (''undirected'', DBool), (''mark_predecessors'', DBool),
                (''dataset'', DObject), (''m_teps'', DFloat64)],
     rows = [(JInt 0, [(''algorithm'', JStr ''BFS''), (''undirected'', JBool True),
                       (''mark_predecessors'', JBool True), (''dataset'', JStr ''road''),
                       (''m_teps'', JFloat (Fin (62 / 5)))])]\<rparr>"

text \<open>A second object on another directory, and an object of a chart type without a
  configuration file.\<close>

definition ex_bar2 :: vega_graph where
  "ex_bar2 = ex_bar\<lparr>oid := 2, input_path := ''in2/''\<rparr>"

definition ex_pie :: vega_graph where
  "ex_pie = ex_bar\<lparr>graph_type := ''pie''\<rparr>"

text \<open>
  A float of value \<open>2^53\<close> and the integer next to it, and integer \<open>m_teps\<close>
  values around \<open>2^53\<close>.
\<close>

definition ex_big_records :: "pyrecord list" where
  "ex_big_records = [[(''m_teps'', JFloat (Fin 9007199254740992))]]"

definition ex_big_conditions :: "(string \<times> scalar) list" where
  "ex_big_conditions = [(''m_teps'', SInt 9007199254740993)]"



text \<open>
  Records of a scatter plot over the field \<open>scale\<close>, which holds an integer, a float and
  a string, and the scatter plot object that reads them.
\<close>

definition ex_object_x_records :: "pyrecord list" where
  "ex_object_x_records =
     [[(''algorithm'', JStr ''BFS''), (''scale'', JInt 9007199254740993),
       (''m_teps'', JFloat (Fin (3 / 2)))],
      [(''algorithm'', JStr ''BFS''), (''scale'', JFloat (Fin 9007199254740992)),
       (''m_teps'', JFloat (Fin (5 / 2)))],
      [(''algorithm'', JStr ''SSSP''), (''scale'', JStr ''n/a''),
       (''m_teps'', JFloat (Fin (7 / 2)))]]"

definition ex_scatter :: vega_graph where
  "ex_scatter =
     ex_bar\<lparr>cls := VegaGraphScatter, graph_type := ''scatter'',
            conditions_dict := [(''algorithm'', SStr ''BFS'')],
            axes_vars := [(''x'', ''scale''), (''y'', ''m_teps'')]\<rparr>"

section \<open>Rounding\<close>

lemma round_half_even_nearest: "\<bar>of_int (round_half_even q) - q\<bar> \<le> 1 / 2"
proof -
  have "of_int \<lfloor>q\<rfloor> \<le> q" "q < of_int \<lfloor>q\<rfloor> + 1" by linarith+
  then show ?thesis
    by (auto simp: round_half_even_def Let_def)
qed

lemma round_half_even_half:
  "round_half_even (of_int n + 1 / 2) = (if even n then n else n + 1)"
proof -
  have "\<lfloor>of_int n + 1 / 2 :: rat\<rfloor> = n" by linarith
  then show ?thesis by (simp add: round_half_even_def Let_def)
qed


lemma round_half_even_of_int: "round_half_even (of_int k) = k"
  by (simp add: round_half_even_def Let_def)



lemma float_of_int_below:
  assumes "\<bar>n\<bar> < 2 ^ 53"
  shows "float_of_int n = of_int n"
proof -
  have "bitlen \<bar>n\<bar> \<le> 53"
  proof (cases "\<bar>n\<bar> = 0")
    case True
    then show ?thesis by simp
  next
    case False
    then have p: "0 < \<bar>n\<bar>" by simp
    have one: "(1::int) < 2" by simp
    from bitlen_bounds[OF p] assms have h: "(2::int) ^ nat (bitlen \<bar>n\<bar> - 1) < 2 ^ 53" by linarith
    have "nat (bitlen \<bar>n\<bar> - 1) < 53" by (rule power_less_imp_less_exp[OF one h])
    then show ?thesis by linarith
  qed
  then have "nat (bitlen \<bar>n\<bar> - 53) = 0" by simp
  then show ?thesis
    by (simp add: float_of_int_def Let_def round_half_even_of_int)
qed

lemma float_of_int_small:
  assumes "\<bar>n\<bar> \<le> 2 ^ 53"
  shows "float_of_int n = of_int n"
proof (cases "\<bar>n\<bar> < 2 ^ 53")
  case True
  then show ?thesis by (rule float_of_int_below)
next
  case False
  with assms have "n = 9007199254740992 \<or> n = - 9007199254740992" by auto
  moreover have "float_of_int 9007199254740992 = of_int 9007199254740992"
    by code_simp
  moreover have "float_of_int (- 9007199254740992) = of_int (- 9007199254740992)"
    by code_simp
  ultimately show ?thesis by auto
qed


text \<open>
  The double of an integer is an integer again, off by at most half a unit of the last
  of its 53 significant bits.
\<close>

lemma float_of_int_near:
  "\<exists>k. float_of_int n = of_int k \<and> 2 * \<bar>k - n\<bar> \<le> 2 ^ nat (bitlen \<bar>n\<bar> - 53)"
proof -
  define e where "e = nat (bitlen \<bar>n\<bar> - 53)"
  define k0 where "k0 = round_half_even (of_int n / 2 ^ e)"
  have f: "float_of_int n = of_int (k0 * 2 ^ e)"
    by (simp add: float_of_int_def Let_def e_def k0_def)
  have "\<bar>of_int k0 - of_int n / 2 ^ e\<bar> \<le> (1 / 2 :: rat)"
    unfolding k0_def by (rule round_half_even_nearest)
  then have "\<bar>of_int k0 - of_int n / 2 ^ e\<bar> * 2 ^ e \<le> (1 / 2) * (2 ^ e :: rat)"
    by (rule mult_right_mono) simp
  moreover have "\<bar>of_int k0 - of_int n / 2 ^ e\<bar> * (2 ^ e :: rat) =
      \<bar>(of_int k0 - of_int n / 2 ^ e) * 2 ^ e\<bar>"
    by (simp add: abs_mult)
  moreover have "(of_int k0 - of_int n / 2 ^ e) * (2 ^ e :: rat) = of_int k0 * 2 ^ e - of_int n"
    by (simp add: field_simps)
  ultimately have "2 * \<bar>(of_int k0 * 2 ^ e - of_int n :: rat)\<bar> \<le> 2 ^ e" by simp
  then have "(of_int (2 * \<bar>k0 * 2 ^ e - n\<bar>) :: rat) \<le> of_int (2 ^ e)" by simp
  then have "2 * \<bar>k0 * 2 ^ e - n\<bar> \<le> 2 ^ e" by (simp only: of_int_le_iff)
  with f show ?thesis unfolding e_def by blast
qed

lemma float_eq_iff: "float_eq a b \<longleftrightarrow> a = b \<and> a \<noteq> NaN"
  by (cases a; cases b) auto

section \<open>Auxiliary facts\<close>

lemma those_map_Some:
  "those (map f xs) = Some ys \<longleftrightarrow> list_all2 (\<lambda>x y. f x = Some y) xs ys"
proof (induction xs arbitrary: ys)
  case Nil
  then show ?case by auto
next
  case (Cons x xs)
  then show ?case by (cases ys) (auto split: option.splits)
qed

lemma ex_bar_init:
  "init VegaGraphBar 1 ''output/'' ''in/'' ''config_files/''
     [(''engine_name'', ''g''), (''algorithm_name'', ''BFS''), (''x_axis'', ''Datasets''),
      (''y_axis'', ''MTEPS''), (''file_suffix'', ''0'')]
     ex_conditions [(''x'', ''dataset''), (''y'', ''m_teps'')] = Inr ex_bar"
  by code_simp

lemma ebind_Inr_iff: "ebind m f = Inr y \<longleftrightarrow> (\<exists>x. m = Inr x \<and> f x = Inr y)"
  by (cases m) (auto simp: ebind_def)

lemma ebind_Inr [simp]: "ebind (Inr x) f = f x"
  by (simp add: ebind_def)

lemma ebind_Inl [simp]: "ebind (Inl e) f = Inl e"
  by (simp add: ebind_def)

lemma getitem_list_Inr:
  assumes "getitem_list df keys = Inr df1"
  shows "rows df1 = map (\<lambda>(l, cs). (l, map (\<lambda>k. (k, cell cs k)) keys)) (rows df)"
    and "map fst (columns df1) = keys"
    and "\<forall>k \<in> set keys. map_of (columns df1) k = map_of (columns df) k \<and> map_of (columns df) k \<noteq> None"
proof -
  from assms obtain cols where
    c: "those (map (\<lambda>k. map_option (Pair k) (map_of (columns df) k)) keys) = Some cols"
    and d: "df1 = df\<lparr>columns := cols,
                  rows := map (\<lambda>(l, cs). (l, map (\<lambda>k. (k, cell cs k)) keys)) (rows df)\<rparr>"
    by (auto simp: getitem_list_def split: option.splits)
  from d show "rows df1 = map (\<lambda>(l, cs). (l, map (\<lambda>k. (k, cell cs k)) keys)) (rows df)" by simp
  from c have la: "list_all2 (\<lambda>k y. map_option (Pair k) (map_of (columns df) k) = Some y) keys cols"
    by (simp add: those_map_Some)
  then have "map fst cols = keys"
    by (induction rule: list_all2_induct) auto
  with d show "map fst (columns df1) = keys" by simp
  have "\<forall>k \<in> set keys. map_of cols k = map_of (columns df) k \<and> map_of (columns df) k \<noteq> None"
    using la by (induction rule: list_all2_induct) auto
  with d show "\<forall>k \<in> set keys. map_of (columns df1) k = map_of (columns df) k \<and> map_of (columns df) k \<noteq> None"
    by simp
qed

lemma getitem_list_succeeds:
  assumes "\<forall>k \<in> set keys. map_of (columns df) k \<noteq> None"
  shows "\<exists>df1. getitem_list df keys = Inr df1"
proof -
  have "list_all2 (\<lambda>k y. map_option (Pair k) (map_of (columns df) k) = Some y) keys
          (map (\<lambda>k. (k, the (map_of (columns df) k))) keys)"
    using assms by (induction keys) auto
  then have "those (map (\<lambda>k. map_option (Pair k) (map_of (columns df) k)) keys)
      = Some (map (\<lambda>k. (k, the (map_of (columns df) k))) keys)"
    by (simp add: those_map_Some)
  then show ?thesis by (simp add: getitem_list_def)
qed

lemma cell_Cons [simp]: "cell ((k, v) # cs) k' = (if k' = k then v else cell cs k')"
  by (simp add: cell_def)

lemma cell_update [simp]: "cell (AList.update k v cs) k' = (if k' = k then v else cell cs k')"
  by (simp add: cell_def update_conv')

lemma lookup_Inr_iff: "lookup d k = Inr v \<longleftrightarrow> map_of d k = Some v"
  by (simp add: lookup_def split: option.splits)

lemma map_of_filter_neq:
  "map_of (filter (\<lambda>(c, v). c \<noteq> k) cs) k' = (if k' = k then None else map_of cs k')"
  by (induction cs) auto

lemma cell_filter_neq: "k' \<noteq> k \<Longrightarrow> cell (filter (\<lambda>(c, v). c \<noteq> k) cs) k' = cell cs k'"
  by (simp add: cell_def map_of_filter_neq)

lemma cell_filter_neq': "k' \<noteq> k \<Longrightarrow> cell (filter (\<lambda>p. fst p \<noteq> k) cs) k' = cell cs k'"
  using cell_filter_neq[of k' k cs] by (simp add: split_def)

lemma enumerate_map:
  "enumerate n (map f xs) = map (\<lambda>p. (fst p, f (snd p))) (enumerate n xs)"
  by (induction xs arbitrary: n) auto

text \<open>The conversion that \<open>reset_index\<close> applies to the labels of an index.\<close>

lemma coerce_cases:
  "coerce d v = v \<or> (\<exists>n. v = JInt n \<and> coerce d v = JFloat (Fin (float_of_int n))) \<or>
     (v = JNull \<and> coerce d v = JFloat NaN)"
  by (cases "(d, v)" rule: coerce.cases) auto

lemma mask_filter: "map snd (filter fst (zip (map p xs) xs)) = filter p xs"
  by (induction xs) auto

lemma getitem_Inr_iff: "(\<exists>s. getitem df k = Inr s) \<longleftrightarrow> k \<in> fst ` set (columns df)"
proof -
  have "map_of (columns df) k \<noteq> None \<longleftrightarrow> k \<in> fst ` set (columns df)"
    by (simp add: map_of_eq_None_iff)
  then show ?thesis
    by (cases "map_of (columns df) k") (auto simp: getitem_def)
qed

lemma getitem_Inl: "getitem df k = Inl e \<Longrightarrow> e = KeyError \<and> k \<notin> fst ` set (columns df)"
proof -
  assume a: "getitem df k = Inl e"
  have "map_of (columns df) k \<noteq> None \<longleftrightarrow> k \<in> fst ` set (columns df)"
    by (simp add: map_of_eq_None_iff)
  with a show ?thesis
    by (cases "map_of (columns df) k") (auto simp: getitem_def)
qed

lemma map_of_map_key:
  "map_of (map (\<lambda>k. (k, g k)) xs) k = (if k \<in> set xs then Some (g k) else None)"
  by (induction xs) auto

lemma cell_map:
  "cell (map (\<lambda>kd. (fst kd, f kd)) cols) k =
     (case map_of cols k of None \<Rightarrow> JFloat NaN | Some d \<Rightarrow> f (k, d))"
  by (induction cols) (auto simp: cell_def)

lemma coerce_JFloat [simp]: "coerce d (JFloat f) = JFloat f"
  by (cases d) auto

lemma coerce_is_str: "is_str (coerce d v) \<Longrightarrow> is_str v"
  by (cases "(d, v)" rule: coerce.cases) auto

lemma py_eq_value_equal: "py_eq c v = value_equal c v"
  by (cases "(c, v)" rule: value_equal.cases) (auto simp: float_eq_iff split: option.splits)

lemma cell_eq_NaN [simp]: "cell_eq d (JFloat NaN) v = False"
  by (cases v) (auto simp: cell_eq_def)

section \<open>Frames built from records\<close>

lemma column_names_DataFrame:
  "fst ` set (columns (DataFrame recs)) = (\<Union>r \<in> set recs. fst ` set r)"
proof -
  have "fst ` set (columns (DataFrame recs)) = set (map fst (columns (DataFrame recs)))"
    by simp
  also have "map fst (columns (DataFrame recs)) = rev (remdups (rev (concat (map (map fst) recs))))"
    by (simp add: DataFrame_def Let_def comp_def)
  also have "set \<dots> = (\<Union>r \<in> set recs. fst ` set r)"
    by auto
  finally show ?thesis .
qed

lemma map_of_columns_DataFrame:
  "map_of (columns (DataFrame recs)) f =
     (if f \<in> (\<Union>r \<in> set recs. fst ` set r)
      then Some (infer_dtype (map (\<lambda>r. cell r f) recs)) else None)"
  by (simp add: DataFrame_def Let_def map_of_map_key)

lemma length_rows_DataFrame: "length (rows (DataFrame recs)) = length recs"
  by (simp add: DataFrame_def Let_def)

lemma rows_DataFrame_nth:
  assumes "i < length recs"
  shows "rows (DataFrame recs) ! i =
     (JInt (int i), map (\<lambda>kd. (fst kd, coerce (snd kd) (cell (recs ! i) (fst kd))))
                        (columns (DataFrame recs)))"
  using assms by (simp add: DataFrame_def Let_def split_def nth_enumerate_eq)

lemma cell_DataFrame_missing:
  assumes "i < length recs" and "map_of (recs ! i) k = None"
  shows "cell (snd (rows (DataFrame recs) ! i)) k = JFloat NaN"
  using assms
  by (simp add: rows_DataFrame_nth cell_map) (simp add: cell_def split: option.splits)

lemma rows_DataFrame_cell:
  assumes "r \<in> set (rows (DataFrame recs))" and "map_of (columns (DataFrame recs)) f = Some d"
  shows "\<exists>rec \<in> set recs. cell (snd r) f = coerce d (cell rec f)"
proof -
  from assms(1) obtain i where i: "i < length recs" and r: "r = rows (DataFrame recs) ! i"
    by (auto simp: in_set_conv_nth length_rows_DataFrame)
  have "cell (snd r) f = coerce d (cell (recs ! i) f)"
    using assms(2) by (simp add: r rows_DataFrame_nth[OF i] cell_map)
  with i show ?thesis by auto
qed

lemma rows_DataFrame_map:
  "rows (DataFrame recs) = map (\<lambda>i. rows (DataFrame recs) ! i) [0..<length recs]"
  using map_nth[of "rows (DataFrame recs)"] by (simp add: length_rows_DataFrame)

lemma cell_DataFrame_nth:
  assumes "i < length recs" and "map_of (columns (DataFrame recs)) k = Some d"
  shows "cell (snd (rows (DataFrame recs) ! i)) k = coerce d (cell (recs ! i) k)"
  using assms by (simp add: rows_DataFrame_nth cell_map)

subsection \<open>What a storage type says about the values\<close>

lemma is_float_not_objectish: "is_float v \<Longrightarrow> \<not> is_objectish v \<and> \<not> is_bool v"
  by (cases v) auto

lemma is_str_objectish: "is_str v \<Longrightarrow> is_objectish v"
  by (cases v) auto

lemma json_kinds:
  "is_objectish v \<or> is_bool v \<or> is_float v \<or> v = JNull \<or> is_int v"
  by (cases v) auto

lemma is_float_not_big: "is_float v \<Longrightarrow> \<not> is_big v \<and> \<not> is_negative v"
  by (cases v) auto

lemma infer_dtype_all_float:
  assumes "vs \<noteq> []" and "\<forall>v \<in> set vs. is_float v"
  shows "infer_dtype vs = DFloat64"
proof -
  from assms(2) have "\<not> list_ex is_objectish vs" "\<not> list_ex is_bool vs" "\<not> list_ex is_big vs"
    by (auto simp: list_ex_iff dest: is_float_not_objectish is_float_not_big)
  moreover from assms have "list_ex is_float vs"
    by (cases vs) auto
  ultimately show ?thesis by (simp add: infer_dtype_def)
qed

lemma infer_dtype_has_str:
  assumes "\<exists>v \<in> set vs. is_str v"
  shows "infer_dtype vs = DObject"
proof -
  from assms have "list_ex is_objectish vs"
    by (auto simp: list_ex_iff dest: is_str_objectish)
  then show ?thesis by (simp add: infer_dtype_def)
qed

lemma infer_dtype_not_Float16: "infer_dtype vs \<noteq> DFloat16"
  by (simp add: infer_dtype_def)

lemma infer_dtype_ints:
  assumes "infer_dtype vs = DInt64 \<or> infer_dtype vs = DUInt64" and "v \<in> set vs"
  shows "is_int v"
proof -
  from assms(1) have "\<not> list_ex is_objectish vs" "\<not> list_ex is_bool vs"
    "\<not> list_ex is_float vs" "\<not> list_ex (\<lambda>u. u = JNull) vs"
    by (auto simp: infer_dtype_def split: if_splits)
  with assms(2) have "\<not> is_objectish v" "\<not> is_bool v" "\<not> is_float v" "v \<noteq> JNull"
    by (auto simp: list_ex_iff)
  with json_kinds[of v] show ?thesis by blast
qed

lemma infer_dtype_Bool:
  assumes "infer_dtype vs = DBool" and "v \<in> set vs"
  shows "is_bool v"
proof -
  from assms(1) have "list_all is_bool vs"
    by (auto simp: infer_dtype_def split: if_splits)
  with assms(2) show ?thesis by (simp add: list_all_iff)
qed

lemma infer_dtype_Float64:
  assumes "infer_dtype vs = DFloat64" and "v \<in> set vs"
  shows "is_float v \<or> is_int v \<or> v = JNull"
proof -
  from assms(1) have "\<not> list_ex is_objectish vs" "\<not> list_ex is_bool vs"
    by (auto simp: infer_dtype_def split: if_splits)
  with assms(2) have "\<not> is_objectish v" "\<not> is_bool v"
    by (auto simp: list_ex_iff)
  with json_kinds[of v] show ?thesis by blast
qed

lemma infer_dtype_Float64_no_str:
  assumes "infer_dtype vs = DFloat64" and "v \<in> set vs"
  shows "\<not> is_str v"
  using infer_dtype_Float64[OF assms] by (cases v) auto


section \<open>The filter\<close>

lemma loc_mask_getitem:
  assumes "getitem df k = Inr s"
  shows "loc_mask df (series_eq s v) =
     df\<lparr>rows := filter (\<lambda>r. \<exists>d. map_of (columns df) k = Some d \<and> cell_eq d (cell (snd r) k) v)
                      (rows df)\<rparr>"
proof -
  from assms obtain d where d: "map_of (columns df) k = Some d"
    by (auto simp: getitem_def split: option.splits)
  from assms d have sv: "s_values s = map (\<lambda>r. (fst r, cell (snd r) k)) (rows df)"
    and sd: "s_dtype s = d"
    by (auto simp: getitem_def split_def)
  have "series_eq s v = map (\<lambda>r. cell_eq d (cell (snd r) k) v) (rows df)"
    by (simp add: series_eq_def sv sd split_def comp_def)
  then show ?thesis
    by (simp add: loc_mask_def mask_filter d)
qed

text \<open>
  The loop as one filter: a row stays when its cell equals the value on every key, each
  cell compared the way its column is stored.
\<close>

lemma restrict_conditions_eq:
  "restrict_conditions df P =
     (if \<forall>kv \<in> set P. fst kv \<in> fst ` set (columns df)
      then Inr (df\<lparr>rows := filter (\<lambda>r. \<forall>kv \<in> set P. \<exists>d. map_of (columns df) (fst kv) = Some d \<and>
                                   cell_eq d (cell (snd r) (fst kv)) (snd kv)) (rows df)\<rparr>)
      else Inl KeyError)"
proof (induction P arbitrary: df)
  case Nil
  show ?case by simp
next
  case (Cons kv P)
  obtain k v where kv: "kv = (k, v)" by (cases kv)
  let ?m = "\<lambda>k v r. \<exists>d. map_of (columns df) k = Some d \<and> cell_eq d (cell (snd r) k) v"
  show ?case
  proof (cases "getitem df k")
    case (Inl e)
    then show ?thesis using getitem_Inl[OF Inl] by (simp add: kv)
  next
    case (Inr s)
    then have "k \<in> fst ` set (columns df)" using getitem_Inr_iff by blast
    moreover have "filter (\<lambda>r. \<forall>kv\<in>set P. ?m (fst kv) (snd kv) r) (filter (?m k v) (rows df)) =
        filter (\<lambda>r. ?m k v r \<and> (\<forall>kv\<in>set P. ?m (fst kv) (snd kv) r)) (rows df)"
      by (simp add: conj_commute)
    ultimately show ?thesis
      by (simp add: kv Inr loc_mask_getitem[OF Inr] Cons.IH)
  qed
qed

lemma restrict_conditions_Inr:
  assumes "restrict_conditions df P = Inr df1"
  shows "columns df1 = columns df" and "set (rows df1) \<subseteq> set (rows df)"
  using assms by (auto simp: restrict_conditions_eq split: if_splits)

text \<open>
  In a frame built from records, the comparison of a stored cell with a predicate value
  agrees with value equality on the field of the record, as long as the integers
  involved are doubles.
\<close>

lemma cell_eq_value_equal:
  assumes d: "infer_dtype vs = d" and c: "c \<in> set vs"
    and cs: "\<forall>n. c = JInt n \<longrightarrow> \<bar>n\<bar> \<le> 2 ^ 53"
    and vs: "\<forall>m. v = SInt m \<longrightarrow> \<bar>m\<bar> \<le> 2 ^ 53"
  shows "cell_eq d (coerce d c) v = value_equal c v"
proof (cases d)
  case DObject
  then show ?thesis by (simp add: cell_eq_def py_eq_value_equal)
next
  case DBool
  with d c infer_dtype_Bool[of vs c] obtain b where "c = JBool b" by (cases c) auto
  with DBool show ?thesis
    by (cases v) (auto simp: cell_eq_def float_eq_iff)
next
  case DInt64
  with d c infer_dtype_ints[of vs c] obtain n where n: "c = JInt n" by (cases c) auto
  with cs have "float_of_int n = of_int n" by (simp add: float_of_int_small)
  with DInt64 n show ?thesis
    by (cases v) (auto simp: cell_eq_def float_eq_iff)
next
  case DUInt64
  with d c infer_dtype_ints[of vs c] obtain n where n: "c = JInt n" by (cases c) auto
  with cs have "float_of_int n = of_int n" by (simp add: float_of_int_small)
  with DUInt64 n show ?thesis
    by (cases v) (auto simp: cell_eq_def float_eq_iff)
next
  case DFloat64
  have sv: "scalar_double v = scalar_value v"
    using vs by (cases v) (auto simp: float_of_int_small)
  from DFloat64 d c infer_dtype_Float64[of vs c]
  consider f where "c = JFloat f" | n where "c = JInt n" | "c = JNull"
    by (cases c) auto
  then show ?thesis
  proof cases
    case 1
    with DFloat64 sv show ?thesis
      by (cases v) (auto simp: cell_eq_def float_eq_iff split: option.splits)
  next
    case 2
    with cs have "float_of_int n = of_int n" by (simp add: float_of_int_small)
    with 2 DFloat64 sv show ?thesis
      by (cases v) (auto simp: cell_eq_def float_eq_iff split: option.splits)
  next
    case 3
    with DFloat64 show ?thesis
      by (cases v) (auto simp: cell_eq_def)
  qed
next
  case DFloat16
  with d infer_dtype_not_Float16 show ?thesis by blast
qed

lemma frame_cell_eq_value_equal:
  assumes i: "i < length recs" and dk: "map_of (columns (DataFrame recs)) k = Some d"
    and cs: "\<forall>n. map_of (recs ! i) k = Some (JInt n) \<longrightarrow> \<bar>n\<bar> \<le> 2 ^ 53"
    and vs: "\<forall>m. v = SInt m \<longrightarrow> \<bar>m\<bar> \<le> 2 ^ 53"
  shows "cell_eq d (cell (snd (rows (DataFrame recs) ! i)) k) v =
     (\<exists>c. map_of (recs ! i) k = Some c \<and> value_equal c v)"
proof (cases "map_of (recs ! i) k")
  case None
  then have "cell (recs ! i) k = JFloat NaN" by (simp add: cell_def)
  with None show ?thesis
    by (simp add: cell_DataFrame_nth[OF i dk])
next
  case (Some c)
  then have ce: "cell (recs ! i) k = c" by (simp add: cell_def)
  let ?vs = "map (\<lambda>r. cell r k) recs"
  from dk have d: "infer_dtype ?vs = d"
    by (simp add: map_of_columns_DataFrame split: if_splits)
  from i ce have "c \<in> set ?vs" by force
  moreover from cs Some have "\<forall>n. c = JInt n \<longrightarrow> \<bar>n\<bar> \<le> 2 ^ 53" by simp
  ultimately have "cell_eq d (coerce d c) v = value_equal c v"
    using d vs by (intro cell_eq_value_equal[where vs = ?vs])
  with Some ce show ?thesis
    by (simp add: cell_DataFrame_nth[OF i dk])
qed

text \<open>
  Claim C2 as stated fails. numpy compares a column of floats with an integer after
  converting the integer to a double: the record with \<open>m_teps = 2^53\<close> stays in the result
  although the required value is \<open>2^53 + 1\<close>. In the same way an integer \<open>2^53 + 1\<close> of a
  record, stored in a column of floats, is kept for the required value \<open>2^53\<close>.
\<close>

theorem filter_rounds_integers_counterexample:
  "(case restrict_conditions (DataFrame ex_big_records) ex_big_conditions of
      Inl e \<Rightarrow> False
    | Inr df' \<Rightarrow> length (rows df') = 1 \<and> rows df' = rows (DataFrame ex_big_records)) \<and>
   map_of (ex_big_records ! 0) ''m_teps'' = Some (JFloat (Fin 9007199254740992)) \<and>
   \<not> value_equal (JFloat (Fin 9007199254740992)) (SInt 9007199254740993) \<and>
   (case restrict_conditions
           (DataFrame [[(''m_teps'', JInt 9007199254740993)], [(''m_teps'', JFloat (Fin (1 / 2)))]])
           [(''m_teps'', SFloat (Fin 9007199254740992))] of
      Inl e \<Rightarrow> False
    | Inr df' \<Rightarrow> map fst (rows df') = [JInt 0]) \<and>
   \<not> value_equal (JInt 9007199254740993) (SFloat (Fin 9007199254740992))"
  by code_simp

text \<open>
  Claim C2, amended. Let every key of the predicate set be a field of at least one loaded
  record, and let no integer of the predicate set and no integer that a record holds under
  one of its keys exceed \<open>2^53\<close> in magnitude. Then the filter returns a frame whose rows
  are the rows of exactly those records that hold, under every key of the predicate set,
  a value equal to the required one: the row of a record is in the result if and only if
  the record is equal on every entry, and the rows stand in the order of the table.
\<close>

theorem filter_keeps_exactly_equal_records:
  assumes "\<forall>kv \<in> set P. \<exists>r \<in> set recs. fst kv \<in> fst ` set r"
    and "\<forall>kv \<in> set P. \<forall>m. snd kv = SInt m \<longrightarrow> \<bar>m\<bar> \<le> 2 ^ 53"
    and "\<forall>r \<in> set recs. \<forall>kv \<in> set P. \<forall>n. map_of r (fst kv) = Some (JInt n) \<longrightarrow> \<bar>n\<bar> \<le> 2 ^ 53"
  shows "\<exists>df'. restrict_conditions (DataFrame recs) P = Inr df' \<and>
     columns df' = columns (DataFrame recs) \<and>
     rows df' = map (\<lambda>i. rows (DataFrame recs) ! i)
                  (filter (\<lambda>i. \<forall>kv \<in> set P. \<exists>c. map_of (recs ! i) (fst kv) = Some c \<and>
                                  value_equal c (snd kv)) [0..<length recs]) \<and>
     (\<forall>i < length recs. rows (DataFrame recs) ! i \<in> set (rows df') \<longleftrightarrow>
          (\<forall>kv \<in> set P. \<exists>c. map_of (recs ! i) (fst kv) = Some c \<and> value_equal c (snd kv))) \<and>
     subseq (rows df') (rows (DataFrame recs))"
proof -
  let ?df = "DataFrame recs"
  let ?m = "\<lambda>r. \<forall>kv \<in> set P. \<exists>d. map_of (columns ?df) (fst kv) = Some d \<and>
                cell_eq d (cell (snd r) (fst kv)) (snd kv)"
  let ?e = "\<lambda>i. \<forall>kv \<in> set P. \<exists>c. map_of (recs ! i) (fst kv) = Some c \<and> value_equal c (snd kv)"
  let ?df' = "?df\<lparr>rows := filter ?m (rows ?df)\<rparr>"
  have cols: "\<forall>kv \<in> set P. fst kv \<in> fst ` set (columns ?df)"
    using assms(1) unfolding column_names_DataFrame by blast
  then have r: "restrict_conditions ?df P = Inr ?df'"
    by (simp add: restrict_conditions_eq)
  have me: "?m (rows ?df ! i) = ?e i" if i: "i < length recs" for i
  proof -
    have "(\<exists>d. map_of (columns ?df) (fst kv) = Some d \<and>
              cell_eq d (cell (snd (rows ?df ! i)) (fst kv)) (snd kv)) =
          (\<exists>c. map_of (recs ! i) (fst kv) = Some c \<and> value_equal c (snd kv))"
      if kv: "kv \<in> set P" for kv
    proof -
      from cols kv have "map_of (columns ?df) (fst kv) \<noteq> None"
        by (simp add: map_of_eq_None_iff)
      then obtain d where d: "map_of (columns ?df) (fst kv) = Some d" by blast
      from i have "recs ! i \<in> set recs" by simp
      with assms(3) kv have a: "\<forall>n. map_of (recs ! i) (fst kv) = Some (JInt n) \<longrightarrow> \<bar>n\<bar> \<le> 2 ^ 53"
        by blast
      from assms(2) kv have b: "\<forall>m. snd kv = SInt m \<longrightarrow> \<bar>m\<bar> \<le> 2 ^ 53" by simp
      from frame_cell_eq_value_equal[OF i d a b] d show ?thesis by simp
    qed
    then show ?thesis by blast
  qed
  have "rows ?df' = filter ?m (map (\<lambda>i. rows ?df ! i) [0..<length recs])"
    using rows_DataFrame_map[of recs] by simp
  also have "\<dots> = map (\<lambda>i. rows ?df ! i) (filter (\<lambda>i. ?m (rows ?df ! i)) [0..<length recs])"
    by (simp add: filter_map comp_def)
  also have "filter (\<lambda>i. ?m (rows ?df ! i)) [0..<length recs] = filter ?e [0..<length recs]"
    by (rule filter_cong) (simp_all add: me)
  finally have rows: "rows ?df' = map (\<lambda>i. rows ?df ! i) (filter ?e [0..<length recs])" .
  have mem: "rows ?df ! i \<in> set (rows ?df') \<longleftrightarrow> ?e i" if i: "i < length recs" for i
  proof -
    from i have "rows ?df ! i \<in> set (rows ?df)"
      by (simp add: length_rows_DataFrame)
    then have "rows ?df ! i \<in> set (rows ?df') \<longleftrightarrow> ?m (rows ?df ! i)" by simp
    with me[OF i] show ?thesis by simp
  qed
  have "subseq (rows ?df') (rows ?df)" by simp
  moreover have "columns ?df' = columns ?df" by simp
  ultimately show ?thesis using r rows mem by blast
qed

text \<open>
  Claim C7 as stated fails: when no record at all has the field of a predicate key, the
  frame has no such column and \<open>df[key]\<close> raises \<open>KeyError\<close>, although the record lacks
  the field.
\<close>

theorem filter_absent_column_counterexample:
  "map_of [(''a'', JInt 1)] ''b'' = None \<and>
   restrict_conditions (DataFrame [[(''a'', JInt 1)]]) [(''b'', SInt 2)] = Inl KeyError"
  by code_simp

text \<open>
  Claim C7, amended. When every key of the predicate set is a field of at least one
  loaded record, the filter does not raise, and a record that lacks the field of one of
  the keys is not in the result: its cell is \<open>NaN\<close>, which equals no value.
\<close>

theorem filter_missing_field:
  assumes "\<forall>kv \<in> set P. \<exists>r \<in> set recs. fst kv \<in> fst ` set r"
    and "i < length recs" and "(k, v) \<in> set P" and "map_of (recs ! i) k = None"
  shows "\<exists>df'. restrict_conditions (DataFrame recs) P = Inr df' \<and>
     rows (DataFrame recs) ! i \<notin> set (rows df')"
proof -
  let ?df = "DataFrame recs"
  let ?m = "\<lambda>r. \<forall>kv \<in> set P. \<exists>d. map_of (columns ?df) (fst kv) = Some d \<and>
                cell_eq d (cell (snd r) (fst kv)) (snd kv)"
  have "\<forall>kv \<in> set P. fst kv \<in> fst ` set (columns ?df)"
    using assms(1) unfolding column_names_DataFrame by blast
  then have r: "restrict_conditions ?df P = Inr (?df\<lparr>rows := filter ?m (rows ?df)\<rparr>)"
    by (simp add: restrict_conditions_eq)
  have "\<not> cell_eq d (cell (snd (rows ?df ! i)) k) v" for d
    using cell_DataFrame_missing[OF assms(2,4)] by simp
  with assms(3) have "\<not> ?m (rows ?df ! i)" by force
  then have "rows ?df ! i \<notin> set (filter ?m (rows ?df))" by simp
  with r show ?thesis by simp
qed

lemma ex_frame:
  "DataFrame ex_records =
    \<lparr>index_name = None, index_dtype = DInt64,
     columns = [(''algorithm'', DObject), (''undirected'', DBool), (''mark_predecessors'', DBool),
                (''dataset'', DObject), (''m_teps'', DFloat64)],
     rows = [(JInt 0, [(''algorithm'', JStr ''BFS''), (''undirected'', JBool True),
                       (''mark_predecessors'', JBool True), (''dataset'', JStr ''road''),
                       (''m_teps'', JFloat (Fin (62 / 5)))]),
             (JInt 1, [(''algorithm'', JStr ''BFS''), (''undirected'', JBool False),
                       (''mark_predecessors'', JBool True), (''dataset'', JStr ''soc''),
                       (''m_teps'', JFloat (Fin (31 / 10)))])]\<rparr>"
  by code_simp

theorem filter_keeps_exactly_equal_records_witness:
  "list_all (\<lambda>kv. list_ex (\<lambda>r. fst kv \<in> fst ` set r) ex_records) ex_conditions \<and>
   list_all (\<lambda>kv. case snd kv of SInt m \<Rightarrow> \<bar>m\<bar> \<le> 2 ^ 53 | _ \<Rightarrow> True) ex_conditions \<and>
   list_all (\<lambda>r. list_all (\<lambda>kv. case map_of r (fst kv) of
                                  Some (JInt n) \<Rightarrow> \<bar>n\<bar> \<le> 2 ^ 53 | _ \<Rightarrow> True) ex_conditions)
            ex_records \<and>
   (\<exists>df'. restrict_conditions (DataFrame ex_records) ex_conditions = Inr df' \<and>
      rows df' = [(JInt 0, [(''algorithm'', JStr ''BFS''), (''undirected'', JBool True),
                       (''mark_predecessors'', JBool True), (''dataset'', JStr ''road''),
                       (''m_teps'', JFloat (Fin (62 / 5)))])])"
proof -
  let ?X = "DataFrame ex_records"
  have h1: "\<forall>kv \<in> set ex_conditions. \<exists>r \<in> set ex_records. fst kv \<in> fst ` set r"
    by (simp add: ex_records_def ex_conditions_def)
  have h2: "\<forall>kv \<in> set ex_conditions. \<forall>m. snd kv = SInt m \<longrightarrow> \<bar>m\<bar> \<le> 2 ^ 53"
    by (simp add: ex_conditions_def)
  have h3: "\<forall>r \<in> set ex_records. \<forall>kv \<in> set ex_conditions. \<forall>n.
              map_of r (fst kv) = Some (JInt n) \<longrightarrow> \<bar>n\<bar> \<le> 2 ^ 53"
    by (simp add: ex_records_def ex_conditions_def)
  have g1: "list_all (\<lambda>kv. list_ex (\<lambda>r. fst kv \<in> fst ` set r) ex_records) ex_conditions"
    using h1 unfolding list_all_iff list_ex_iff by blast
  have g2: "list_all (\<lambda>kv. case snd kv of SInt m \<Rightarrow> \<bar>m\<bar> \<le> 2 ^ 53 | _ \<Rightarrow> True) ex_conditions"
    by (simp add: ex_conditions_def)
  have g3: "list_all (\<lambda>r. list_all (\<lambda>kv. case map_of r (fst kv) of
                                  Some (JInt n) \<Rightarrow> \<bar>n\<bar> \<le> 2 ^ 53 | _ \<Rightarrow> True) ex_conditions)
            ex_records"
    by (simp add: ex_records_def ex_conditions_def)
  have f: "filter (\<lambda>i. \<forall>kv \<in> set ex_conditions. \<exists>c. map_of (ex_records ! i) (fst kv) = Some c \<and>
                         value_equal c (snd kv)) [0..<length ex_records] = [0]"
    by (simp add: ex_records_def ex_conditions_def upt_rec)
  from filter_keeps_exactly_equal_records[OF h1 h2 h3] obtain df' where
    r: "restrict_conditions ?X ex_conditions = Inr df'" and
    c: "rows df' = map (\<lambda>i. rows ?X ! i)
          (filter (\<lambda>i. \<forall>kv \<in> set ex_conditions. \<exists>c. map_of (ex_records ! i) (fst kv) = Some c \<and>
                         value_equal c (snd kv)) [0..<length ex_records])"
    by blast
  from c have "rows df' = [rows ?X ! 0]" unfolding f by simp
  then have "rows df' = [(JInt 0, [(''algorithm'', JStr ''BFS''), (''undirected'', JBool True),
                       (''mark_predecessors'', JBool True), (''dataset'', JStr ''road''),
                       (''m_teps'', JFloat (Fin (62 / 5)))])]"
    by (simp add: ex_frame)
  with r g1 g2 g3 show ?thesis by blast
qed

theorem filter_missing_field_witness:
  "list_all (\<lambda>kv. list_ex (\<lambda>r. fst kv \<in> fst ` set r) ex_partial_records) [(''undirected'', SBool True)] \<and>
   map_of (ex_partial_records ! 1) ''undirected'' = None \<and>
   (\<exists>df'. restrict_conditions (DataFrame ex_partial_records) [(''undirected'', SBool True)] = Inr df' \<and>
      rows (DataFrame ex_partial_records) ! 1 \<notin> set (rows df'))"
proof -
  have h1: "\<forall>kv \<in> set [(''undirected'', SBool True)]. \<exists>r \<in> set ex_partial_records. fst kv \<in> fst ` set r"
    by (simp add: ex_partial_records_def)
  have h2: "1 < length ex_partial_records" by (simp add: ex_partial_records_def)
  have h3: "(''undirected'', SBool True) \<in> set [(''undirected'', SBool True)]" by simp
  have h4: "map_of (ex_partial_records ! 1) ''undirected'' = None"
    by (simp add: ex_partial_records_def)
  from filter_missing_field[OF h1 h2 h3 h4] h1 h4 show ?thesis
    unfolding list_all_iff list_ex_iff by blast
qed

section \<open>The heat map projection\<close>

lemma project_heatmap_rows:
  assumes "project_heatmap df = Inr df'"
  shows "list_all2 (\<lambda>x y. \<exists>v. rint_cell (cell (snd x) ''m_teps'') = Some v \<and>
           y = (fst x, [(''dataset'', cell (snd x) ''dataset''), (''m_teps'', cell (snd x) ''m_teps''),
                        (''alpha'', cell (snd x) ''alpha''), (''beta'', cell (snd x) ''beta''),
                        (''m_teps_rounded'', v)]))
         (rows df) (rows df')" (is "list_all2 ?R _ _")
proof -
  let ?keys = "[''dataset'', ''m_teps'', ''alpha'', ''beta'']"
  from assms obtain df1 s r where
    g: "getitem_list df ?keys = Inr df1" and
    s: "getitem df1 ''m_teps'' = Inr s" and
    r: "numpy_rint s = Inr r" and
    d: "df' = assign df1 ''m_teps_rounded'' r"
    by (auto simp: project_heatmap_def ebind_Inr_iff)
  have rows1: "rows df1 = map (\<lambda>x. (fst x, map (\<lambda>k. (k, cell (snd x) k)) ?keys)) (rows df)"
    using getitem_list_Inr(1)[OF g] by (simp add: split_def)
  have sv: "s_values s = map (\<lambda>x. (fst x, cell (snd x) ''m_teps'')) (rows df)"
    using s by (auto simp: getitem_def rows1 split_def split: option.splits)
  have rv: "length (s_values r) = length (rows df) \<and>
      (\<forall>i < length (rows df). fst (s_values r ! i) = fst (rows df ! i) \<and>
           rint_cell (cell (snd (rows df ! i)) ''m_teps'') = Some (snd (s_values r ! i)))"
  proof (cases "s_dtype s = DObject")
    case True
    with r have "s_values s = []" "r = s" by (auto simp: numpy_rint_def split: if_splits)
    then show ?thesis using sv by simp
  next
    case False
    with r obtain vs where v: "those (map (\<lambda>x. rint_cell (snd x)) (s_values s)) = Some vs"
      and rr: "s_values r = zip (map fst (s_values s)) vs"
      by (auto simp: numpy_rint_def split_def split: option.splits)
    from v have la: "list_all2 (\<lambda>x y. rint_cell (snd x) = Some y) (s_values s) vs"
      by (simp add: those_map_Some)
    then have len: "length vs = length (rows df)"
      by (simp add: list_all2_lengthD[symmetric] sv)
    have "\<forall>i < length (rows df). rint_cell (snd (s_values s ! i)) = Some (vs ! i)"
      using la by (simp add: list_all2_conv_all_nth sv)
    then show ?thesis
      using len by (simp add: rr sv)
  qed
  have rd: "rows df' = map (\<lambda>p. (fst (fst p), AList.update ''m_teps_rounded'' (snd (snd p)) (snd (fst p))))
                     (zip (rows df1) (s_values r))"
    by (simp add: d assign_def split_def)
  have len: "length (rows df) = length (rows df')"
    using rv by (simp add: rd rows1)
  have "?R (rows df ! i) (rows df' ! i)" if i: "i < length (rows df)" for i
  proof -
    from i have e: "rows df' ! i = (fst (rows df ! i),
        AList.update ''m_teps_rounded'' (snd (s_values r ! i))
          (map (\<lambda>k. (k, cell (snd (rows df ! i)) k)) ?keys))"
      using rv by (simp add: rd rows1)
    from rv i have rc: "rint_cell (cell (snd (rows df ! i)) ''m_teps'') = Some (snd (s_values r ! i))"
      by simp
    show ?thesis
      unfolding e using rc by simp
  qed
  with len show ?thesis
    unfolding list_all2_conv_all_nth by blast
qed

lemma project_heatmap_succeeds:
  assumes cols: "\<forall>k \<in> set [''dataset'', ''m_teps'', ''alpha'', ''beta'']. map_of (columns df) k \<noteq> None"
    and ty: "map_of (columns df) ''m_teps'' \<noteq> Some DObject"
    and num: "\<forall>r \<in> set (rows df). rint_cell (cell (snd r) ''m_teps'') \<noteq> None"
  shows "\<exists>df'. project_heatmap df = Inr df'"
proof -
  let ?keys = "[''dataset'', ''m_teps'', ''alpha'', ''beta'']"
  from getitem_list_succeeds[OF cols] obtain df1 where g: "getitem_list df ?keys = Inr df1" ..
  have rows1: "rows df1 = map (\<lambda>x. (fst x, map (\<lambda>k. (k, cell (snd x) k)) ?keys)) (rows df)"
    using getitem_list_Inr(1)[OF g] by (simp add: split_def)
  from getitem_list_Inr(3)[OF g] have m: "map_of (columns df1) ''m_teps'' = map_of (columns df) ''m_teps''"
    "map_of (columns df) ''m_teps'' \<noteq> None" by simp_all
  then obtain d where d: "map_of (columns df1) ''m_teps'' = Some d" "d \<noteq> DObject"
    using ty by auto
  then obtain s where s: "getitem df1 ''m_teps'' = Inr s" "s_dtype s = d"
    "s_values s = map (\<lambda>x. (fst x, cell (snd x) ''m_teps'')) (rows df)"
    by (simp add: getitem_def rows1 split_def)
  have "list_all2 (\<lambda>x y. rint_cell (snd x) = Some y) (s_values s)
         (map (\<lambda>x. the (rint_cell (snd x))) (s_values s))"
    using num by (auto simp: s(3) list_all2_conv_all_nth)
  then have "those (map (\<lambda>x. rint_cell (snd x)) (s_values s)) =
       Some (map (\<lambda>x. the (rint_cell (snd x))) (s_values s))"
    by (simp add: those_map_Some)
  then obtain r where "numpy_rint s = Inr r"
    using d(2) s(2) by (simp add: numpy_rint_def split_def)
  with g s(1) show ?thesis
    by (simp add: project_heatmap_def)
qed







text \<open>
  Claim C10. When the \<open>m_teps\<close> of a row lies exactly halfway between two integers,
  the rounded field of that row is the even one of the two.
\<close>

theorem heatmap_round_half_even:
  assumes "project_heatmap df = Inr df'"
    and "i < length (rows df)"
    and "cell (snd (rows df ! i)) ''m_teps'' = JFloat (Fin (of_int n + 1 / 2))"
  shows "i < length (rows df') \<and>
     cell (snd (rows df' ! i)) ''m_teps_rounded'' = JFloat (Fin (of_int (if even n then n else n + 1)))"
  using project_heatmap_rows[OF assms(1)] assms(2,3) round_half_even_half[of n]
  unfolding list_all2_conv_all_nth
  by auto

lemma ex_heat_columns:
  "columns (DataFrame ex_heat_records) =
     [(''dataset'', DObject), (''m_teps'', DFloat64), (''alpha'', DFloat64), (''beta'', DInt64)]"
  by code_simp

lemma ex_heat_rows:
  "rows (DataFrame ex_heat_records) =
     [(JInt 0, [(''dataset'', JStr ''road''), (''m_teps'', JFloat (Fin (63 / 5))),
       (''alpha'', JFloat (Fin (1 / 10))), (''beta'', JInt 2)]),
      (JInt 1, [(''dataset'', JStr ''soc''), (''m_teps'', JFloat (Fin (25 / 2))),
       (''alpha'', JFloat (Fin (1 / 5))), (''beta'', JInt 4)]),
      (JInt 2, [(''dataset'', JStr ''web''), (''m_teps'', JFloat (Fin (27 / 2))),
       (''alpha'', JFloat (Fin (3 / 10))), (''beta'', JInt 8)])]"
  by code_simp

lemma rint_examples:
  "rint (Fin (63 / 5)) = Fin 13" "rint (Fin (25 / 2)) = Fin 12" "rint (Fin (27 / 2)) = Fin 14"
  by code_simp+



theorem heatmap_round_half_even_witness:
  "\<exists>df'. project_heatmap (DataFrame ex_heat_records) = Inr df' \<and>
     cell (snd (rows (DataFrame ex_heat_records) ! 1)) ''m_teps'' = JFloat (Fin (of_int 12 + 1 / 2)) \<and>
     cell (snd (rows (DataFrame ex_heat_records) ! 2)) ''m_teps'' = JFloat (Fin (of_int 13 + 1 / 2)) \<and>
     cell (snd (rows df' ! 1)) ''m_teps_rounded'' = JFloat (Fin 12) \<and>
     cell (snd (rows df' ! 2)) ''m_teps_rounded'' = JFloat (Fin 14)"
proof -
  let ?X = "DataFrame ex_heat_records"
  have "\<exists>df'. project_heatmap ?X = Inr df'"
    by (rule project_heatmap_succeeds) (simp_all add: ex_heat_columns ex_heat_rows)
  then obtain df' where p: "project_heatmap ?X = Inr df'" ..
  have c1: "cell (snd (rows ?X ! 1)) ''m_teps'' = JFloat (Fin (of_int 12 + 1 / 2))"
    by (simp add: ex_heat_rows)
  have c2: "cell (snd (rows ?X ! 2)) ''m_teps'' = JFloat (Fin (of_int 13 + 1 / 2))"
    by (simp add: ex_heat_rows)
  have l1: "1 < length (rows ?X)" and l2: "2 < length (rows ?X)"
    by (simp_all add: ex_heat_rows)
  from heatmap_round_half_even[OF p l1 c1] heatmap_round_half_even[OF p l2 c2] p c1 c2
  show ?thesis by auto
qed

section \<open>The bar and scatter projection\<close>

lemma project_axes_Inr:
  assumes "project_axes df self = Inr df2"
  shows "\<exists>xf yf dx dy. map_of (axes_vars self) ''x'' = Some xf \<and>
      map_of (axes_vars self) ''y'' = Some yf \<and> map_of (columns df) xf = Some dx \<and>
      map_of (columns df) yf = Some dy \<and> xf \<noteq> yf \<and>
      df2 = (let it = index_type dx;
                 d = (if it = DObject then infer_dtype (map (\<lambda>r. cell (snd r) xf) (rows df)) else it)
             in \<lparr>index_name = None, index_dtype = DInt64, columns = [(xf, d), (yf, dy)],
                 rows = map (\<lambda>ir. (JInt (int (fst ir)),
                                   [(xf, if it = DObject then coerce d (cell (snd (snd ir)) xf)
                                         else cell (snd (snd ir)) xf),
                                    (yf, cell (snd (snd ir)) yf)]))
                            (enumerate 0 (rows df))\<rparr>)"
proof -
  from assms obtain xf dfi yf s where
    x: "lookup (axes_vars self) ''x'' = Inr xf" and
    si: "set_index df xf = Inr dfi" and
    y: "lookup (axes_vars self) ''y'' = Inr yf" and
    g: "getitem dfi yf = Inr s" and
    r: "reset_index (frame_of_series s) = Inr df2"
    by (auto simp: project_axes_def ebind_Inr_iff)
  from si obtain dx where dx: "map_of (columns df) xf = Some dx" and
    dfi: "dfi = \<lparr>index_name = Some xf,
               index_dtype = index_type dx,
               columns = filter (\<lambda>(c, t). c \<noteq> xf) (columns df),
               rows = map (\<lambda>(l, cs). (cell cs xf, filter (\<lambda>(c, v). c \<noteq> xf) cs)) (rows df)\<rparr>"
    by (auto simp: set_index_def split: option.splits)
  from g obtain dy where dy: "map_of (columns dfi) yf = Some dy" and
    s: "s = \<lparr>s_name = yf, s_dtype = dy, s_index_name = index_name dfi,
             s_index_dtype = index_dtype dfi,
             s_values = map (\<lambda>(l, cs). (l, cell cs yf)) (rows dfi)\<rparr>"
    by (auto simp: getitem_def split: option.splits)
  from dy have ne: "xf \<noteq> yf" and dy': "map_of (columns df) yf = Some dy"
    by (auto simp: dfi map_of_filter_neq split: if_splits)
  have sv: "s_values s = map (\<lambda>r. (cell (snd r) xf, cell (snd r) yf)) (rows df)"
    using ne by (simp add: s dfi split_def comp_def cell_filter_neq')
  have "df2 = (let it = index_type dx;
                 d = (if it = DObject then infer_dtype (map (\<lambda>r. cell (snd r) xf) (rows df)) else it)
             in \<lparr>index_name = None, index_dtype = DInt64, columns = [(xf, d), (yf, dy)],
                 rows = map (\<lambda>ir. (JInt (int (fst ir)),
                                   [(xf, if it = DObject then coerce d (cell (snd (snd ir)) xf)
                                         else cell (snd (snd ir)) xf),
                                    (yf, cell (snd (snd ir)) yf)]))
                            (enumerate 0 (rows df))\<rparr>)"
    using r ne
    by (auto simp add: reset_index_def frame_of_series_def sv s dfi Let_def split_def comp_def
        enumerate_map cell_filter_neq' split: if_splits)
  with x y dx dy' ne show ?thesis
    by (auto simp: lookup_Inr_iff)
qed

lemma project_axes_succeeds:
  assumes "map_of (axes_vars self) ''x'' = Some xf" and "map_of (axes_vars self) ''y'' = Some yf"
    and "xf \<in> fst ` set (columns df)" and "yf \<in> fst ` set (columns df)" and "xf \<noteq> yf"
  shows "\<exists>df2. project_axes df self = Inr df2"
proof -
  from assms(3) obtain dx where dx: "map_of (columns df) xf = Some dx"
    by (cases "map_of (columns df) xf") (auto simp: map_of_eq_None_iff)
  from assms(4) obtain dy where dy: "map_of (columns df) yf = Some dy"
    by (cases "map_of (columns df) yf") (auto simp: map_of_eq_None_iff)
  obtain dfi where si: "set_index df xf = Inr dfi"
    and ci: "columns dfi = filter (\<lambda>(c, t). c \<noteq> xf) (columns df)"
    and ni: "index_name dfi = Some xf"
    by (simp add: set_index_def dx)
  have "map_of (columns dfi) yf = Some dy"
    using assms(5) dy by (simp add: ci map_of_filter_neq)
  then obtain s where g: "getitem dfi yf = Inr s" and sn: "s_name s = yf"
    and sin: "s_index_name s = Some xf"
    by (simp add: getitem_def ni)
  have "\<exists>df2. reset_index (frame_of_series s) = Inr df2"
    using assms(5) by (simp add: reset_index_def frame_of_series_def sn sin Let_def)
  then show ?thesis
    using assms(1,2) si g by (auto simp: project_axes_def lookup_def)
qed

lemma coerce_other: "d \<noteq> DFloat64 \<Longrightarrow> coerce d v = v"
  by (cases "(d, v)" rule: coerce.cases) auto

lemma coerce_Float64_cases:
  "coerce DFloat64 v = v \<or>
   (\<exists>n k. v = JInt n \<and> coerce DFloat64 v = JFloat (Fin (of_int k)) \<and>
          2 * \<bar>k - n\<bar> \<le> 2 ^ nat (bitlen \<bar>n\<bar> - 53) \<and> (\<bar>n\<bar> \<le> 2 ^ 53 \<longrightarrow> k = n)) \<or>
   (v = JNull \<and> coerce DFloat64 v = JFloat NaN)"
proof (cases v)
  case (JInt n)
  from float_of_int_near[of n] obtain k where
    k: "float_of_int n = of_int k" "2 * \<bar>k - n\<bar> \<le> 2 ^ nat (bitlen \<bar>n\<bar> - 53)" by blast
  have "k = n" if "\<bar>n\<bar> \<le> 2 ^ 53"
    using float_of_int_small[OF that] k(1) by simp
  with JInt k show ?thesis by auto
qed auto

lemma coerce_Float64_same:
  "\<not> is_int v \<Longrightarrow> v \<noteq> JNull \<Longrightarrow> coerce DFloat64 v = v"
  by (cases v) auto

lemma infer_dtype_str_or_bool:
  assumes "v \<in> set vs" and "is_str v \<or> is_bool v"
  shows "infer_dtype vs \<noteq> DFloat64"
proof
  assume "infer_dtype vs = DFloat64"
  from infer_dtype_Float64[OF this assms(1)] assms(2) show False
    by (cases v) auto
qed

text \<open>
  Claim C1 as stated fails: \<open>set_index\<close> does not merge rows with equal labels, so two
  records with the same \<open>x\<close> value give two output records, and the first of them keeps
  its own \<open>y\<close>, not that of the last record. Nor are the \<open>x\<close> values always those of the
  input: in a column of objects whose filtered values are numbers, the integer \<open>2^53 + 1\<close>
  comes out as the float \<open>2^53\<close>.
\<close>

theorem bar_projection_duplicates_counterexample:
  "(case project_axes (DataFrame ex_dup_records) ex_bar of
      Inl e \<Rightarrow> []
    | Inr d \<Rightarrow> to_dict_records d) =
     [JObj [(''dataset'', JStr ''road''), (''m_teps'', JFloat (Fin (3 / 2)))],
      JObj [(''dataset'', JStr ''road''), (''m_teps'', JFloat (Fin (5 / 2)))]] \<and>
   (case ebind (restrict_conditions (DataFrame ex_object_x_records) (conditions_dict ex_scatter))
           (\<lambda>d. project_axes d ex_scatter) of
      Inl e \<Rightarrow> []
    | Inr d \<Rightarrow> to_dict_records d) =
     [JObj [(''scale'', JFloat (Fin 9007199254740992)), (''m_teps'', JFloat (Fin (3 / 2)))],
      JObj [(''scale'', JFloat (Fin 9007199254740992)), (''m_teps'', JFloat (Fin (5 / 2)))]]"
  by code_simp

text \<open>
  Claim C1, amended. When the axis mapping names two different columns of the filtered
  table, the bar and scatter projection emits one record per row of the table, in the
  order of the table, with exactly the two fields \<open>x\<close> and \<open>y\<close>; rows with equal \<open>x\<close>
  are all kept, and the \<open>y\<close> value of a record is that of the row at the same position.
  The \<open>x\<close> value is that of the row, with one exception: when the \<open>x\<close> column is not
  stored as \<open>int64\<close>, \<open>uint64\<close> or \<open>float64\<close> and pandas infers \<open>float64\<close> for the \<open>x\<close>
  values of the filtered table, an integer comes out as the float nearest to it (the
  same number up to \<open>2^53\<close> in magnitude, beyond that off by at most half a unit of the
  last of its 53 significant bits) and \<open>None\<close> as \<open>NaN\<close>. In particular the \<open>x\<close> values
  are exactly those of the input when the column is stored as \<open>int64\<close>, \<open>uint64\<close> or
  \<open>float64\<close>, when no \<open>x\<close> of the filtered table is an integer or \<open>None\<close>, or when one of
  them is a string or a boolean.
\<close>

theorem bar_projection_keeps_every_record:
  assumes "map_of (axes_vars self) ''x'' = Some xf" and "map_of (axes_vars self) ''y'' = Some yf"
    and "map_of (columns df) xf = Some dx" and "yf \<in> fst ` set (columns df)" and "xf \<noteq> yf"
  shows "\<exists>df2. project_axes df self = Inr df2 \<and>
     to_dict_records df2 =
       map (\<lambda>r. JObj [(xf, if index_type dx = DObject \<and>
                               infer_dtype (map (\<lambda>r. cell (snd r) xf) (rows df)) = DFloat64
                            then coerce DFloat64 (cell (snd r) xf) else cell (snd r) xf),
                       (yf, cell (snd r) yf)]) (rows df) \<and>
     list_all2 (\<lambda>r j. \<exists>xv. j = JObj [(xf, xv), (yf, cell (snd r) yf)] \<and>
          (xv = cell (snd r) xf \<or>
           (\<exists>n k. cell (snd r) xf = JInt n \<and> xv = JFloat (Fin (of_int k)) \<and>
                  2 * \<bar>k - n\<bar> \<le> 2 ^ nat (bitlen \<bar>n\<bar> - 53) \<and> (\<bar>n\<bar> \<le> 2 ^ 53 \<longrightarrow> k = n)) \<or>
           (cell (snd r) xf = JNull \<and> xv = JFloat NaN)))
        (rows df) (to_dict_records df2) \<and>
     (index_type dx \<noteq> DObject \<or>
      (\<forall>r \<in> set (rows df). \<not> is_int (cell (snd r) xf) \<and> cell (snd r) xf \<noteq> JNull) \<or>
      (\<exists>r \<in> set (rows df). is_str (cell (snd r) xf) \<or> is_bool (cell (snd r) xf)) \<longrightarrow>
        to_dict_records df2 =
          map (\<lambda>r. JObj [(xf, cell (snd r) xf), (yf, cell (snd r) yf)]) (rows df))"
proof -
  let ?X = "map (\<lambda>r. cell (snd r) xf) (rows df)"
  let ?cv = "index_type dx = DObject \<and> infer_dtype ?X = DFloat64"
  let ?x = "\<lambda>r. if ?cv then coerce DFloat64 (cell (snd r) xf) else cell (snd r) xf"
  from assms(3) have xc: "xf \<in> fst ` set (columns df)"
    by (metis domI dom_map_of_conv_image_fst)
  from project_axes_succeeds[OF assms(1,2) xc assms(4,5)]
  obtain df2 where p: "project_axes df self = Inr df2" ..
  from project_axes_Inr[OF p] assms(1,2,3) obtain dy where
    d: "df2 = (let it = index_type dx;
                 d = (if it = DObject then infer_dtype (map (\<lambda>r. cell (snd r) xf) (rows df)) else it)
             in \<lparr>index_name = None, index_dtype = DInt64, columns = [(xf, d), (yf, dy)],
                 rows = map (\<lambda>ir. (JInt (int (fst ir)),
                                   [(xf, if it = DObject then coerce d (cell (snd (snd ir)) xf)
                                         else cell (snd (snd ir)) xf),
                                    (yf, cell (snd (snd ir)) yf)]))
                            (enumerate 0 (rows df))\<rparr>)"
    by auto
  have cv: "(if index_type dx = DObject then coerce (infer_dtype ?X) v else v) =
      (if ?cv then coerce DFloat64 v else v)" for v
    by (cases "infer_dtype ?X = DFloat64") (simp_all add: coerce_other)
  have rows2: "rows df2 = map (\<lambda>ir. (JInt (int (fst ir)),
                 [(xf, ?x (snd ir)), (yf, cell (snd (snd ir)) yf)]))
               (enumerate 0 (rows df))"
  proof (cases "index_type dx = DObject")
    case True
    with d show ?thesis using cv by (simp add: Let_def)
  next
    case False
    with d show ?thesis by (simp add: Let_def)
  qed
  have "to_dict_records df2 =
      map ((\<lambda>r. JObj [(xf, ?x r), (yf, cell (snd r) yf)]) \<circ> snd) (enumerate 0 (rows df))"
    by (simp add: to_dict_records_def rows2 comp_def)
  also have "\<dots> = map (\<lambda>r. JObj [(xf, ?x r), (yf, cell (snd r) yf)]) (rows df)"
    by (simp only: map_map[symmetric] map_snd_enumerate)
  finally have t: "to_dict_records df2 =
      map (\<lambda>r. JObj [(xf, ?x r), (yf, cell (snd r) yf)]) (rows df)" .
  have each: "?x r = cell (snd r) xf \<or>
           (\<exists>n k. cell (snd r) xf = JInt n \<and> ?x r = JFloat (Fin (of_int k)) \<and>
                  2 * \<bar>k - n\<bar> \<le> 2 ^ nat (bitlen \<bar>n\<bar> - 53) \<and> (\<bar>n\<bar> \<le> 2 ^ 53 \<longrightarrow> k = n)) \<or>
           (cell (snd r) xf = JNull \<and> ?x r = JFloat NaN)" for r
  proof (cases ?cv)
    case True
    show ?thesis unfolding if_P[OF True] by (rule coerce_Float64_cases)
  next
    case False
    show ?thesis unfolding if_not_P[OF False] by simp
  qed
  have l: "list_all2 (\<lambda>r j. \<exists>xv. j = JObj [(xf, xv), (yf, cell (snd r) yf)] \<and>
          (xv = cell (snd r) xf \<or>
           (\<exists>n k. cell (snd r) xf = JInt n \<and> xv = JFloat (Fin (of_int k)) \<and>
                  2 * \<bar>k - n\<bar> \<le> 2 ^ nat (bitlen \<bar>n\<bar> - 53) \<and> (\<bar>n\<bar> \<le> 2 ^ 53 \<longrightarrow> k = n)) \<or>
           (cell (snd r) xf = JNull \<and> xv = JFloat NaN)))
        (rows df) (to_dict_records df2)"
    unfolding t list_all2_conv_all_nth
  proof (intro conjI allI impI)
    show "length (rows df) = length (map (\<lambda>r. JObj [(xf, ?x r), (yf, cell (snd r) yf)]) (rows df))"
      by simp
  next
    fix i assume i: "i < length (rows df)"
    let ?r = "rows df ! i"
    have "map (\<lambda>r. JObj [(xf, ?x r), (yf, cell (snd r) yf)]) (rows df) ! i =
        JObj [(xf, ?x ?r), (yf, cell (snd ?r) yf)]"
      using i by simp
    with each[of ?r]
    show "\<exists>xv. map (\<lambda>r. JObj [(xf, ?x r), (yf, cell (snd r) yf)]) (rows df) ! i =
             JObj [(xf, xv), (yf, cell (snd ?r) yf)] \<and>
          (xv = cell (snd ?r) xf \<or>
           (\<exists>n k. cell (snd ?r) xf = JInt n \<and> xv = JFloat (Fin (of_int k)) \<and>
                  2 * \<bar>k - n\<bar> \<le> 2 ^ nat (bitlen \<bar>n\<bar> - 53) \<and> (\<bar>n\<bar> \<le> 2 ^ 53 \<longrightarrow> k = n)) \<or>
           (cell (snd ?r) xf = JNull \<and> xv = JFloat NaN))"
      by (intro exI[of _ "?x ?r"] conjI)
  qed
  have ex: "to_dict_records df2 =
          map (\<lambda>r. JObj [(xf, cell (snd r) xf), (yf, cell (snd r) yf)]) (rows df)"
    if h: "index_type dx \<noteq> DObject \<or>
      (\<forall>r \<in> set (rows df). \<not> is_int (cell (snd r) xf) \<and> cell (snd r) xf \<noteq> JNull) \<or>
      (\<exists>r \<in> set (rows df). is_str (cell (snd r) xf) \<or> is_bool (cell (snd r) xf))"
  proof -
    have "?x r = cell (snd r) xf" if r: "r \<in> set (rows df)" for r
    proof -
      from h consider "index_type dx \<noteq> DObject"
        | "\<forall>r \<in> set (rows df). \<not> is_int (cell (snd r) xf) \<and> cell (snd r) xf \<noteq> JNull"
        | "\<exists>r \<in> set (rows df). is_str (cell (snd r) xf) \<or> is_bool (cell (snd r) xf)"
        by blast
      then show ?thesis
      proof cases
        case 1
        then show ?thesis by simp
      next
        case 2
        with r have "coerce DFloat64 (cell (snd r) xf) = cell (snd r) xf"
          by (intro coerce_Float64_same) auto
        then show ?thesis by simp
      next
        case 3
        then obtain r' where r': "r' \<in> set (rows df)"
          "is_str (cell (snd r') xf) \<or> is_bool (cell (snd r') xf)" by blast
        from r'(1) have "cell (snd r') xf \<in> set ?X" by simp
        from infer_dtype_str_or_bool[OF this r'(2)] show ?thesis by simp
      qed
    qed
    then have "map (\<lambda>r. JObj [(xf, ?x r), (yf, cell (snd r) yf)]) (rows df) =
        map (\<lambda>r. JObj [(xf, cell (snd r) xf), (yf, cell (snd r) yf)]) (rows df)"
      by (intro map_cong) simp_all
    with t show ?thesis by simp
  qed
  from p t l ex show ?thesis by blast
qed

lemma ex_dup_frame:
  "DataFrame ex_dup_records =
    \<lparr>index_name = None, index_dtype = DInt64,
     columns = [(''dataset'', DObject), (''m_teps'', DFloat64)],
     rows = [(JInt 0, [(''dataset'', JStr ''road''), (''m_teps'', JFloat (Fin (3 / 2)))]),
             (JInt 1, [(''dataset'', JStr ''road''), (''m_teps'', JFloat (Fin (5 / 2)))])]\<rparr>"
  by code_simp

theorem bar_projection_keeps_every_record_witness:
  "map_of (axes_vars ex_bar) ''x'' = Some ''dataset'' \<and>
   map_of (axes_vars ex_bar) ''y'' = Some ''m_teps'' \<and>
   map_of (columns (DataFrame ex_dup_records)) ''dataset'' = Some DObject \<and>
   ''m_teps'' \<in> fst ` set (columns (DataFrame ex_dup_records)) \<and>
   list_ex (\<lambda>r. is_str (cell (snd r) ''dataset'')) (rows (DataFrame ex_dup_records)) \<and>
   (\<exists>df2. project_axes (DataFrame ex_dup_records) ex_bar = Inr df2 \<and>
     to_dict_records df2 =
       [JObj [(''dataset'', JStr ''road''), (''m_teps'', JFloat (Fin (3 / 2)))],
        JObj [(''dataset'', JStr ''road''), (''m_teps'', JFloat (Fin (5 / 2)))]])"
proof -
  let ?X = "DataFrame ex_dup_records"
  have h1: "map_of (axes_vars ex_bar) ''x'' = Some ''dataset''"
    and h2: "map_of (axes_vars ex_bar) ''y'' = Some ''m_teps''"
    by (simp_all add: ex_bar_def)
  have h3: "map_of (columns ?X) ''dataset'' = Some DObject"
    and h4: "''m_teps'' \<in> fst ` set (columns ?X)"
    by (simp_all add: ex_dup_frame)
  have h5: "''dataset'' \<noteq> ''m_teps''" by simp
  have h6: "\<exists>r \<in> set (rows ?X). is_str (cell (snd r) ''dataset'') \<or> is_bool (cell (snd r) ''dataset'')"
    by (simp add: ex_dup_frame cell_def)
  have g6: "list_ex (\<lambda>r. is_str (cell (snd r) ''dataset'')) (rows ?X)"
    by (simp add: ex_dup_frame cell_def)
  from bar_projection_keeps_every_record[OF h1 h2 h3 h4 h5] obtain df2 where
    p: "project_axes ?X ex_bar = Inr df2" and
    e: "index_type DObject \<noteq> DObject \<or>
      (\<forall>r \<in> set (rows ?X). \<not> is_int (cell (snd r) ''dataset'') \<and> cell (snd r) ''dataset'' \<noteq> JNull) \<or>
      (\<exists>r \<in> set (rows ?X). is_str (cell (snd r) ''dataset'') \<or> is_bool (cell (snd r) ''dataset'')) \<longrightarrow>
        to_dict_records df2 =
          map (\<lambda>r. JObj [(''dataset'', cell (snd r) ''dataset''), (''m_teps'', cell (snd r) ''m_teps'')])
            (rows ?X)"
    by blast
  from e h6 have "to_dict_records df2 =
          map (\<lambda>r. JObj [(''dataset'', cell (snd r) ''dataset''), (''m_teps'', cell (snd r) ''m_teps'')])
            (rows ?X)"
    by blast
  then have "to_dict_records df2 =
       [JObj [(''dataset'', JStr ''road''), (''m_teps'', JFloat (Fin (3 / 2)))],
        JObj [(''dataset'', JStr ''road''), (''m_teps'', JFloat (Fin (5 / 2)))]]"
    by (simp add: ex_dup_frame cell_def)
  with p h1 h2 h3 h4 g6 show ?thesis by blast
qed

section \<open>Nested assignment\<close>

lemma set_item_Inr:
  "set_item d k v = Inr d' \<longleftrightarrow> (\<exists>kvs. d = JObj kvs \<and> d' = JObj (AList.update k v kvs))"
  by (cases d) auto

lemma get_item_Inr:
  "get_item d k = Inr c \<longleftrightarrow> (\<exists>kvs. d = JObj kvs \<and> map_of kvs k = Some c)"
  by (cases d) (auto split: option.splits)

lemma get_path_update:
  "get_path (JObj (AList.update k v kvs)) (k' # q) =
     (if k' = k then get_path v q else get_path (JObj kvs) (k' # q))"
  by (simp add: update_conv')

lemma set_nested_get_same:
  "set_nested d ps k v = Inr d' \<Longrightarrow> get_path d' (ps @ [k]) = Some v"
proof (induction ps arbitrary: d d')
  case Nil
  then show ?case by (auto simp: set_item_Inr update_conv')
next
  case (Cons p ps)
  from Cons.prems obtain c c' where
    c: "get_item d p = Inr c" and n: "set_nested c ps k v = Inr c'" and s: "set_item d p c' = Inr d'"
    by (auto simp: ebind_Inr_iff)
  from s obtain kvs where "d' = JObj (AList.update p c' kvs)" by (auto simp: set_item_Inr)
  with Cons.IH[OF n] show ?case by (simp add: update_conv')
qed

lemma set_nested_get_other:
  "set_nested d ps k v = Inr d' \<Longrightarrow> \<not> prefix (ps @ [k]) q \<Longrightarrow> \<not> prefix q (ps @ [k]) \<Longrightarrow>
     get_path d' q = get_path d q"
proof (induction ps arbitrary: d d' q)
  case Nil
  from Nil.prems(1) obtain kvs where d: "d = JObj kvs" "d' = JObj (AList.update k v kvs)"
    by (auto simp: set_item_Inr)
  from Nil.prems(2,3) obtain k' q' where q: "q = k' # q'" "k' \<noteq> k"
    by (cases q) auto
  show ?case by (simp add: d q update_conv')
next
  case (Cons p ps)
  from Cons.prems(1) obtain c c' where
    c: "get_item d p = Inr c" and n: "set_nested c ps k v = Inr c'" and s: "set_item d p c' = Inr d'"
    by (auto simp: ebind_Inr_iff)
  from c s obtain kvs where d: "d = JObj kvs" "map_of kvs p = Some c"
    "d' = JObj (AList.update p c' kvs)"
    by (auto simp: set_item_Inr get_item_Inr)
  from Cons.prems(3) obtain k' q' where q: "q = k' # q'" by (cases q) auto
  show ?case
  proof (cases "k' = p")
    case True
    with Cons.prems(2,3) q have "\<not> prefix (ps @ [k]) q'" "\<not> prefix q' (ps @ [k])" by auto
    from Cons.IH[OF n this] show ?thesis by (simp add: d q True update_conv')
  next
    case False
    then show ?thesis by (simp add: d q update_conv')
  qed
qed

lemma has_path_prefix: "has_path d (a @ b) \<Longrightarrow> has_path d a"
proof (induction a arbitrary: d)
  case Nil
  then show ?case by (simp add: has_path_def)
next
  case (Cons k a)
  then show ?case
    by (cases d) (auto simp: has_path_def split: option.splits)
qed

lemma set_nested_has_path:
  assumes "set_nested d ps k v = Inr d'" and "has_path d q" and "\<not> strict_prefix (ps @ [k]) q"
  shows "has_path d' q"
proof (cases "prefix q (ps @ [k])")
  case True
  then obtain r where "ps @ [k] = q @ r" by (auto simp: prefix_def)
  moreover have "has_path d' (ps @ [k])"
    using set_nested_get_same[OF assms(1)] by (simp add: has_path_def)
  ultimately show ?thesis using has_path_prefix by metis
next
  case False
  with assms(3) have "\<not> prefix (ps @ [k]) q" by (auto simp: strict_prefix_def)
  from set_nested_get_other[OF assms(1) this False] assms(2) show ?thesis
    by (simp add: has_path_def)
qed

section \<open>The template merge\<close>

lemma ex_projected_from_records:
  "ebind (restrict_conditions (DataFrame ex_records) ex_conditions) (\<lambda>d. project_axes d ex_bar)
     = Inr ex_projected"
  by code_simp

lemma axis_types_Cons_Inr:
  "axis_types bar df axes (key # keys) = Inr bar' \<longleftrightarrow>
     (\<exists>field s b1. lookup axes key = Inr field \<and> getitem df field = Inr s \<and>
        set_nested bar [''encoding'', key] ''type''
          (JStr (if s_dtype s = DFloat64 then ''quantitative'' else ''ordinal'')) = Inr b1 \<and>
        axis_types b1 df axes keys = Inr bar')"
  unfolding axis_types.simps ebind_Inr_iff by blast

lemma axis_types_has_path:
  "axis_types bar df axes keys = Inr bar' \<Longrightarrow> has_path bar q \<Longrightarrow>
     \<forall>k \<in> set keys. \<not> strict_prefix [''encoding'', k, ''type''] q \<Longrightarrow> has_path bar' q"
proof (induction keys arbitrary: bar)
  case Nil
  then show ?case by simp
next
  case (Cons key keys)
  from Cons.prems(1) obtain s :: series and b1 where
    n: "set_nested bar [''encoding'', key] ''type''
          (JStr (if s_dtype s = DFloat64 then ''quantitative'' else ''ordinal'')) = Inr b1" and
    r: "axis_types b1 df axes keys = Inr bar'"
    unfolding axis_types_Cons_Inr by blast
  have "has_path b1 q"
    using set_nested_has_path[OF n Cons.prems(2)] Cons.prems(3) by simp
  from Cons.IH[OF r this] Cons.prems(3) show ?case by simp
qed

lemma axis_types_get_other:
  "axis_types bar df axes keys = Inr bar' \<Longrightarrow>
     \<forall>k \<in> set keys. \<not> prefix [''encoding'', k, ''type''] q \<and> \<not> prefix q [''encoding'', k, ''type''] \<Longrightarrow>
     get_path bar' q = get_path bar q"
proof (induction keys arbitrary: bar)
  case Nil
  then show ?case by simp
next
  case (Cons key keys)
  from Cons.prems(1) obtain s :: series and b1 where
    n: "set_nested bar [''encoding'', key] ''type''
          (JStr (if s_dtype s = DFloat64 then ''quantitative'' else ''ordinal'')) = Inr b1" and
    r: "axis_types b1 df axes keys = Inr bar'"
    unfolding axis_types_Cons_Inr by blast
  have "get_path b1 q = get_path bar q"
    using set_nested_get_other[OF n] Cons.prems(2) by simp
  with Cons.IH[OF r] Cons.prems(2) show ?case by simp
qed

lemma axis_types_type:
  "axis_types bar df axes keys = Inr bar' \<Longrightarrow> k \<in> set keys \<Longrightarrow> map_of axes k = Some f \<Longrightarrow>
     getitem df f = Inr s \<Longrightarrow>
     get_path bar' [''encoding'', k, ''type''] =
       Some (JStr (if s_dtype s = DFloat64 then ''quantitative'' else ''ordinal''))"
proof (induction keys arbitrary: bar)
  case Nil
  then show ?case by simp
next
  case (Cons key keys)
  from Cons.prems(1) obtain field and s' :: series and b1 where
    l: "lookup axes key = Inr field" and g: "getitem df field = Inr s'" and
    n: "set_nested bar [''encoding'', key] ''type''
          (JStr (if s_dtype s' = DFloat64 then ''quantitative'' else ''ordinal'')) = Inr b1" and
    r: "axis_types b1 df axes keys = Inr bar'"
    unfolding axis_types_Cons_Inr by blast
  show ?case
  proof (cases "k \<in> set keys")
    case True
    from Cons.IH[OF r True Cons.prems(3,4)] show ?thesis .
  next
    case False
    with Cons.prems(2) have k: "key = k" by simp
    with l Cons.prems(3) have "field = f" by (simp add: lookup_Inr_iff)
    with g Cons.prems(4) have s: "s' = s" by simp
    have "get_path b1 [''encoding'', k, ''type''] =
        Some (JStr (if s_dtype s = DFloat64 then ''quantitative'' else ''ordinal''))"
      using set_nested_get_same[OF n] by (simp add: k s)
    moreover have "get_path bar' [''encoding'', k, ''type''] = get_path b1 [''encoding'', k, ''type'']"
    proof (rule axis_types_get_other[OF r], intro ballI)
      fix k' assume "k' \<in> set keys"
      with False have "k' \<noteq> k" by auto
      then show "\<not> prefix [''encoding'', k', ''type''] [''encoding'', k, ''type''] \<and>
                 \<not> prefix [''encoding'', k, ''type''] [''encoding'', k', ''type'']"
        by simp
    qed
    ultimately show ?thesis by simp
  qed
qed

lemma merge_bar_steps:
  assumes "merge_bar bar df self = Inr out"
  shows "\<exists>b1 b2 b3 b4 b5 x y.
    set_item bar ''data'' (JObj [(''values'', JArr (to_dict_records df))]) = Inr b1 \<and>
    map_of (axes_vars self) ''y'' = Some y \<and>
    set_nested b1 [''encoding'', ''y''] ''field'' (JStr y) = Inr b2 \<and>
    set_nested b2 [''encoding'', ''y''] ''axis'' (JObj [(''title'', JStr (y_axis_label self))]) = Inr b3 \<and>
    axis_types b3 df (axes_vars self) (map fst (axes_vars self)) = Inr b4 \<and>
    map_of (axes_vars self) ''x'' = Some x \<and>
    set_nested b4 [''encoding'', ''x''] ''field'' (JStr x) = Inr b5 \<and>
    set_nested b5 [''encoding'', ''x''] ''axis'' (JObj [(''title'', JStr (x_axis_label self))]) = Inr out"
  using assms unfolding merge_bar_def ebind_Inr_iff lookup_Inr_iff
  by blast

lemma set_item_has_path:
  assumes "set_item d k v = Inr d'" and "has_path d q" and "\<not> strict_prefix [k] q"
  shows "has_path d' q"
  using set_nested_has_path[of d "[]" k v d' q] assms by simp

lemma set_item_get_other:
  assumes "set_item d k v = Inr d'" and "\<not> prefix [k] q" and "\<not> prefix q [k]"
  shows "get_path d' q = get_path d q"
  using set_nested_get_other[of d "[]" k v d' q] assms by simp

text \<open>
  Claim C4 as stated fails: \<open>bar["data"] = ...\<close> and \<open>bar["encoding"][..]["axis"] = ...\<close>
  replace the values of the template at these keys, so the keys that the template nests
  below them are gone from the result.
\<close>

theorem merge_drops_nested_keys_counterexample:
  "has_path ex_template [''data'', ''url''] \<and>
   has_path ex_template [''encoding'', ''x'', ''axis'', ''grid''] \<and>
   (case merge_bar ex_template ex_projected ex_bar of
      Inl e \<Rightarrow> False
    | Inr bar \<Rightarrow> \<not> has_path bar [''data'', ''url''] \<and>
                \<not> has_path bar [''encoding'', ''x'', ''axis'', ''grid''])"
  by code_simp

text \<open>
  Claim C4, amended. The merge assigns the paths \<open>data\<close>, \<open>encoding.y.field\<close>,
  \<open>encoding.y.axis\<close>, \<open>encoding.k.type\<close> for every key \<open>k\<close> of the axis mapping,
  \<open>encoding.x.field\<close> and \<open>encoding.x.axis\<close>. Every key path of the template that does
  not lie strictly below an assigned path is a key path of the result, and the value at
  every path that neither leads to an assigned path nor lies at or below one is the
  value of the template.
\<close>

theorem merge_keeps_template_keys:
  assumes "merge_bar tmpl df self = Inr bar"
  shows "(\<forall>q. has_path tmpl q \<and> (\<forall>s \<in> set (assigned_slots self). \<not> strict_prefix s q)
              \<longrightarrow> has_path bar q) \<and>
         (\<forall>q. (\<forall>s \<in> set (assigned_slots self). \<not> prefix s q \<and> \<not> prefix q s)
              \<longrightarrow> get_path bar q = get_path tmpl q)"
proof -
  from merge_bar_steps[OF assms] obtain b1 b2 b3 b4 b5 x y where
    s1: "set_item tmpl ''data'' (JObj [(''values'', JArr (to_dict_records df))]) = Inr b1" and
    s2: "set_nested b1 [''encoding'', ''y''] ''field'' (JStr y) = Inr b2" and
    s3: "set_nested b2 [''encoding'', ''y''] ''axis'' (JObj [(''title'', JStr (y_axis_label self))]) = Inr b3" and
    s4: "axis_types b3 df (axes_vars self) (map fst (axes_vars self)) = Inr b4" and
    s5: "set_nested b4 [''encoding'', ''x''] ''field'' (JStr x) = Inr b5" and
    s6: "set_nested b5 [''encoding'', ''x''] ''axis'' (JObj [(''title'', JStr (x_axis_label self))]) = Inr bar"
    by blast
  have keys: "has_path bar q"
    if h: "has_path tmpl q" and n: "\<forall>s \<in> set (assigned_slots self). \<not> strict_prefix s q" for q
  proof -
    from n have n1: "\<not> strict_prefix [''data''] q"
      and n2: "\<not> strict_prefix ([''encoding'', ''y''] @ [''field'']) q"
      and n3: "\<not> strict_prefix ([''encoding'', ''y''] @ [''axis'']) q"
      and n4: "\<forall>k \<in> set (map fst (axes_vars self)). \<not> strict_prefix [''encoding'', k, ''type''] q"
      and n5: "\<not> strict_prefix ([''encoding'', ''x''] @ [''field'']) q"
      and n6: "\<not> strict_prefix ([''encoding'', ''x''] @ [''axis'']) q"
      by (simp_all add: assigned_slots_def)
    have "has_path b1 q" by (rule set_item_has_path[OF s1 h n1])
    then have "has_path b2 q" by (rule set_nested_has_path[OF s2 _ n2])
    then have "has_path b3 q" by (rule set_nested_has_path[OF s3 _ n3])
    then have "has_path b4 q" by (rule axis_types_has_path[OF s4 _ n4])
    then have "has_path b5 q" by (rule set_nested_has_path[OF s5 _ n5])
    then show ?thesis by (rule set_nested_has_path[OF s6 _ n6])
  qed
  have vals: "get_path bar q = get_path tmpl q"
    if n: "\<forall>s \<in> set (assigned_slots self). \<not> prefix s q \<and> \<not> prefix q s" for q
  proof -
    from n have n1: "\<not> prefix [''data''] q" "\<not> prefix q [''data'']"
      and n2: "\<not> prefix ([''encoding'', ''y''] @ [''field'']) q"
              "\<not> prefix q ([''encoding'', ''y''] @ [''field''])"
      and n3: "\<not> prefix ([''encoding'', ''y''] @ [''axis'']) q"
              "\<not> prefix q ([''encoding'', ''y''] @ [''axis''])"
      and n4: "\<forall>k \<in> set (map fst (axes_vars self)).
                 \<not> prefix [''encoding'', k, ''type''] q \<and> \<not> prefix q [''encoding'', k, ''type'']"
      and n5: "\<not> prefix ([''encoding'', ''x''] @ [''field'']) q"
              "\<not> prefix q ([''encoding'', ''x''] @ [''field''])"
      and n6: "\<not> prefix ([''encoding'', ''x''] @ [''axis'']) q"
              "\<not> prefix q ([''encoding'', ''x''] @ [''axis''])"
      by (simp_all add: assigned_slots_def)
    have "get_path bar q = get_path b5 q" by (rule set_nested_get_other[OF s6 n6])
    also have "\<dots> = get_path b4 q" by (rule set_nested_get_other[OF s5 n5])
    also have "\<dots> = get_path b3 q" by (rule axis_types_get_other[OF s4 n4])
    also have "\<dots> = get_path b2 q" by (rule set_nested_get_other[OF s3 n3])
    also have "\<dots> = get_path b1 q" by (rule set_nested_get_other[OF s2 n2])
    also have "\<dots> = get_path tmpl q" by (rule set_item_get_other[OF s1 n1])
    finally show ?thesis .
  qed
  from keys vals show ?thesis by blast
qed

lemma ex_merge: "merge_bar ex_template ex_projected ex_bar = Inr ex_merged"
  by code_simp

theorem merge_keeps_template_keys_witness:
  "merge_bar ex_template ex_projected ex_bar = Inr ex_merged \<and>
   has_path ex_template [''encoding'', ''y'', ''scale'', ''zero''] \<and>
   has_path ex_merged [''encoding'', ''y'', ''scale'', ''zero''] \<and>
   has_path ex_template [''encoding'', ''x'', ''axis''] \<and>
   has_path ex_merged [''encoding'', ''x'', ''axis''] \<and>
   get_path ex_merged [''mark''] = get_path ex_template [''mark'']"
proof -
  from merge_keeps_template_keys[OF ex_merge] have
    k: "\<And>q. has_path ex_template q \<Longrightarrow>
          \<forall>s \<in> set (assigned_slots ex_bar). \<not> strict_prefix s q \<Longrightarrow> has_path ex_merged q" and
    v: "\<And>q. \<forall>s \<in> set (assigned_slots ex_bar). \<not> prefix s q \<and> \<not> prefix q s \<Longrightarrow>
          get_path ex_merged q = get_path ex_template q"
    by blast+
  have t1: "has_path ex_template [''encoding'', ''y'', ''scale'', ''zero'']"
    and t2: "has_path ex_template [''encoding'', ''x'', ''axis'']"
    by (simp_all add: ex_template_def has_path_def)
  have "has_path ex_merged [''encoding'', ''y'', ''scale'', ''zero'']"
    by (rule k[OF t1]) (simp add: assigned_slots_def ex_bar_def)
  moreover have "has_path ex_merged [''encoding'', ''x'', ''axis'']"
    by (rule k[OF t2]) (simp add: assigned_slots_def ex_bar_def)
  moreover have "get_path ex_merged [''mark''] = get_path ex_template [''mark'']"
    by (rule v) (simp add: assigned_slots_def ex_bar_def)
  ultimately show ?thesis using ex_merge t1 t2 by blast
qed

section \<open>The axis types\<close>

lemma parse_jsons_barbase_steps:
  assumes "parse_jsons_barbase e st self = Inr bar"
  shows "\<exists>df1 df2 tmpl.
     restrict_conditions (DataFrame (input_jsons st self)) (conditions_dict self) = Inr df1 \<and>
     project_axes df1 self = Inr df2 \<and> read_config e self = Inr tmpl \<and>
     merge_bar tmpl df2 self = Inr bar"
  using assms unfolding parse_jsons_barbase_def parse_jsons_base_def ebind_Inr_iff
  by blast

lemma merge_bar_type:
  assumes "merge_bar tmpl df self = Inr bar" and "map_of (axes_vars self) k = Some f"
    and "getitem df f = Inr s"
  shows "get_path bar [''encoding'', k, ''type''] =
     Some (JStr (if s_dtype s = DFloat64 then ''quantitative'' else ''ordinal''))"
proof -
  from merge_bar_steps[OF assms(1)] obtain b3 b4 b5 x where
    s4: "axis_types b3 df (axes_vars self) (map fst (axes_vars self)) = Inr b4" and
    s5: "set_nested b4 [''encoding'', ''x''] ''field'' (JStr x) = Inr b5" and
    s6: "set_nested b5 [''encoding'', ''x''] ''axis'' (JObj [(''title'', JStr (x_axis_label self))]) = Inr bar"
    by blast
  from assms(2) have "k \<in> set (map fst (axes_vars self))"
    by (metis map_of_eq_None_iff option.distinct(1) set_map)
  from axis_types_type[OF s4 this assms(2,3)]
  have "get_path b4 [''encoding'', k, ''type''] =
     Some (JStr (if s_dtype s = DFloat64 then ''quantitative'' else ''ordinal''))" .
  moreover have "get_path b5 [''encoding'', k, ''type''] = get_path b4 [''encoding'', k, ''type'']"
    by (rule set_nested_get_other[OF s5]) simp_all
  moreover have "get_path bar [''encoding'', k, ''type''] = get_path b5 [''encoding'', k, ''type'']"
    by (rule set_nested_get_other[OF s6]) simp_all
  ultimately show ?thesis by simp
qed

text \<open>
  Claim C5 as stated fails: the type of a column is fixed when the table is built from
  all loaded records and the filter does not change it. Here the \<open>m_teps\<close> values of
  the projected records are all floats, but a record that the filter removes holds a
  string there, the column is stored as \<open>object\<close>, and the \<open>y\<close> axis is typed
  \<open>ordinal\<close>.
\<close>

theorem axis_type_float_values_counterexample:
  "(case parse_jsons_barbase ex_env (ex_store_of ex_mixed_records) ex_bar_bfs of
      Inl e \<Rightarrow> False
    | Inr bar \<Rightarrow>
        get_path bar [''data'', ''values''] =
          Some (JArr [JObj [(''dataset'', JStr ''road''), (''m_teps'', JFloat (Fin (62 / 5)))]]) \<and>
        get_path bar [''encoding'', ''y'', ''type''] = Some (JStr ''ordinal''))"
  by code_simp

text \<open>
  Claim C5, amended. When the bar or scatter description is built: an axis is typed
  \<open>quantitative\<close> when its field holds a float in every loaded record (the filtered-out
  ones included); the \<open>x\<close> axis is also typed \<open>quantitative\<close> when the filtered table is
  not empty and its \<open>x\<close> values are all floats; an axis is typed \<open>ordinal\<close> when the
  filtered table is not empty and the values of its field there are all strings.
\<close>

theorem axis_types_from_storage:
  assumes ok: "parse_jsons_barbase e st self = Inr bar"
    and ax: "map_of (axes_vars self) ''x'' = Some xf"
    and ay: "map_of (axes_vars self) ''y'' = Some yf"
    and f: "restrict_conditions (DataFrame (input_jsons st self)) (conditions_dict self) = Inr df1"
  shows "((\<forall>r \<in> set (input_jsons st self). is_float (cell r yf)) \<longrightarrow>
            get_path bar [''encoding'', ''y'', ''type''] = Some (JStr ''quantitative'')) \<and>
         ((\<forall>r \<in> set (input_jsons st self). is_float (cell r xf)) \<longrightarrow>
            get_path bar [''encoding'', ''x'', ''type''] = Some (JStr ''quantitative'')) \<and>
         (rows df1 \<noteq> [] \<and> (\<forall>r \<in> set (rows df1). is_float (cell (snd r) xf)) \<longrightarrow>
            get_path bar [''encoding'', ''x'', ''type''] = Some (JStr ''quantitative'')) \<and>
         (rows df1 \<noteq> [] \<and> (\<forall>r \<in> set (rows df1). is_str (cell (snd r) yf)) \<longrightarrow>
            get_path bar [''encoding'', ''y'', ''type''] = Some (JStr ''ordinal'')) \<and>
         (rows df1 \<noteq> [] \<and> (\<forall>r \<in> set (rows df1). is_str (cell (snd r) xf)) \<longrightarrow>
            get_path bar [''encoding'', ''x'', ''type''] = Some (JStr ''ordinal''))"
proof -
  let ?recs = "input_jsons st self"
  let ?df = "DataFrame ?recs"
  from parse_jsons_barbase_steps[OF ok] f obtain df2 tmpl where
    p: "project_axes df1 self = Inr df2" and m: "merge_bar tmpl df2 self = Inr bar"
    by auto
  from project_axes_Inr[OF p] ax ay obtain dx dy where
    dx: "map_of (columns df1) xf = Some dx" and dy: "map_of (columns df1) yf = Some dy" and
    ne: "xf \<noteq> yf" and
    d2: "df2 = (let it = index_type dx;
                 d = (if it = DObject then infer_dtype (map (\<lambda>r. cell (snd r) xf) (rows df1)) else it)
             in \<lparr>index_name = None, index_dtype = DInt64, columns = [(xf, d), (yf, dy)],
                 rows = map (\<lambda>ir. (JInt (int (fst ir)),
                                   [(xf, if it = DObject then coerce d (cell (snd (snd ir)) xf)
                                         else cell (snd (snd ir)) xf),
                                    (yf, cell (snd (snd ir)) yf)]))
                            (enumerate 0 (rows df1))\<rparr>)"
    by auto
  define d where "d = (if index_type dx = DObject
                       then infer_dtype (map (\<lambda>r. cell (snd r) xf) (rows df1))
                       else index_type dx)"
  have cols2: "columns df2 = [(xf, d), (yf, dy)]"
    using d2 by (auto simp: Let_def d_def)
  obtain sx where sx: "getitem df2 xf = Inr sx" "s_dtype sx = d"
    by (simp add: getitem_def cols2)
  obtain sy where sy: "getitem df2 yf = Inr sy" "s_dtype sy = dy"
    using ne by (simp add: getitem_def cols2)
  have tx: "get_path bar [''encoding'', ''x'', ''type''] =
      Some (JStr (if d = DFloat64 then ''quantitative'' else ''ordinal''))"
    using merge_bar_type[OF m ax sx(1)] by (simp add: sx(2))
  have ty: "get_path bar [''encoding'', ''y'', ''type''] =
      Some (JStr (if dy = DFloat64 then ''quantitative'' else ''ordinal''))"
    using merge_bar_type[OF m ay sy(1)] by (simp add: sy(2))
  have cdf: "columns df1 = columns ?df" and rdf: "set (rows df1) \<subseteq> set (rows ?df)"
    using restrict_conditions_Inr[OF f] by simp_all
  from dx dy have cx: "map_of (columns ?df) xf = Some dx" and cy: "map_of (columns ?df) yf = Some dy"
    by (simp_all add: cdf)
  from cx have ix: "dx = infer_dtype (map (\<lambda>r. cell r xf) ?recs)"
    by (simp add: map_of_columns_DataFrame split: if_splits)
  from cy have iy: "dy = infer_dtype (map (\<lambda>r. cell r yf) ?recs)" and ney: "?recs \<noteq> []"
    by (auto simp add: map_of_columns_DataFrame split: if_splits)
  have a: "dy = DFloat64" if "\<forall>r \<in> set ?recs. is_float (cell r yf)"
    unfolding iy using ney that by (intro infer_dtype_all_float) auto
  have a': "d = DFloat64" if "\<forall>r \<in> set ?recs. is_float (cell r xf)"
  proof -
    have "dx = DFloat64"
      unfolding ix using ney that by (intro infer_dtype_all_float) auto
    then show ?thesis by (simp add: d_def index_type_def)
  qed
  have b: "d = DFloat64"
    if n: "rows df1 \<noteq> []" and fl: "\<forall>r \<in> set (rows df1). is_float (cell (snd r) xf)"
  proof -
    from n obtain r where r: "r \<in> set (rows df1)" by (cases "rows df1") auto
    with rdf have "r \<in> set (rows ?df)" by blast
    from rows_DataFrame_cell[OF this cx] obtain rec where
      rec: "rec \<in> set ?recs" "cell (snd r) xf = coerce dx (cell rec xf)" by blast
    have "\<not> (dx = DInt64 \<or> dx = DUInt64)"
    proof
      assume i: "dx = DInt64 \<or> dx = DUInt64"
      then have "is_int (cell rec xf)"
        using infer_dtype_ints[of "map (\<lambda>r. cell r xf) ?recs" "cell rec xf"] rec(1) ix by auto
      moreover have "is_float (cell rec xf)"
        using fl r rec(2) i by auto
      ultimately show False by (cases "cell rec xf") auto
    qed
    moreover have "infer_dtype (map (\<lambda>r. cell (snd r) xf) (rows df1)) = DFloat64"
      using n fl by (intro infer_dtype_all_float) auto
    ultimately show ?thesis by (auto simp: d_def index_type_def)
  qed
  have c: "dy \<noteq> DFloat64"
    if n: "rows df1 \<noteq> []" and st: "\<forall>r \<in> set (rows df1). is_str (cell (snd r) yf)"
  proof -
    from n obtain r where r: "r \<in> set (rows df1)" by (cases "rows df1") auto
    with rdf have "r \<in> set (rows ?df)" by blast
    from rows_DataFrame_cell[OF this cy] obtain rec where
      rec: "rec \<in> set ?recs" "cell (snd r) yf = coerce dy (cell rec yf)" by blast
    from st r rec(2) have "is_str (cell rec yf)" by (metis coerce_is_str)
    with rec(1) have "dy = DObject"
      unfolding iy by (intro infer_dtype_has_str) auto
    then show ?thesis by simp
  qed
  have dd: "d \<noteq> DFloat64"
    if n: "rows df1 \<noteq> []" and st: "\<forall>r \<in> set (rows df1). is_str (cell (snd r) xf)"
  proof -
    from n obtain r where r: "r \<in> set (rows df1)" by (cases "rows df1") auto
    with rdf have "r \<in> set (rows ?df)" by blast
    from rows_DataFrame_cell[OF this cx] obtain rec where
      rec: "rec \<in> set ?recs" "cell (snd r) xf = coerce dx (cell rec xf)" by blast
    from st r rec(2) have "is_str (cell rec xf)" by (metis coerce_is_str)
    with rec(1) have "dx = DObject"
      unfolding ix by (intro infer_dtype_has_str) auto
    moreover have "infer_dtype (map (\<lambda>r. cell (snd r) xf) (rows df1)) = DObject"
    proof (rule infer_dtype_has_str)
      from r st have "is_str (cell (snd r) xf)" by blast
      with r show "\<exists>v \<in> set (map (\<lambda>r. cell (snd r) xf) (rows df1)). is_str v"
        by (intro bexI[of _ "cell (snd r) xf"]) simp_all
    qed
    ultimately show ?thesis by (simp add: d_def index_type_def)
  qed
  from a a' b c dd tx ty show ?thesis by simp
qed

lemma ex_parse: "parse_jsons_barbase ex_env (ex_store_of ex_records) ex_bar = Inr ex_merged"
  by code_simp

lemma ex_restrict:
  "restrict_conditions (DataFrame (input_jsons (ex_store_of ex_records) ex_bar))
     (conditions_dict ex_bar) = Inr ex_restricted"
  by code_simp

theorem axis_types_from_storage_witness:
  "parse_jsons_barbase ex_env (ex_store_of ex_records) ex_bar = Inr ex_merged \<and>
   list_all (\<lambda>r. is_float (cell r ''m_teps'')) (input_jsons (ex_store_of ex_records) ex_bar) \<and>
   get_path ex_merged [''encoding'', ''y'', ''type''] = Some (JStr ''quantitative'') \<and>
   rows ex_restricted \<noteq> [] \<and>
   list_all (\<lambda>r. is_str (cell (snd r) ''dataset'')) (rows ex_restricted) \<and>
   get_path ex_merged [''encoding'', ''x'', ''type''] = Some (JStr ''ordinal'')"
proof -
  have ax: "map_of (axes_vars ex_bar) ''x'' = Some ''dataset''"
    and ay: "map_of (axes_vars ex_bar) ''y'' = Some ''m_teps''"
    by (simp_all add: ex_bar_def)
  have h1: "\<forall>r \<in> set (input_jsons (ex_store_of ex_records) ex_bar). is_float (cell r ''m_teps'')"
    by (simp add: input_jsons_def input_jsons_ref_def ex_store_of_def ex_records_def)
  have h2: "rows ex_restricted \<noteq> []"
    and h3: "\<forall>r \<in> set (rows ex_restricted). is_str (cell (snd r) ''dataset'')"
    by (simp_all add: ex_restricted_def)
  from axis_types_from_storage[OF ex_parse ax ay ex_restrict] h1 h2 h3
  have "get_path ex_merged [''encoding'', ''y'', ''type''] = Some (JStr ''quantitative'')"
    and "get_path ex_merged [''encoding'', ''x'', ''type''] = Some (JStr ''ordinal'')"
    by blast+
  with ex_parse h1 h2 h3 show ?thesis
    unfolding list_all_iff by blast
qed

section \<open>The renderer bridge\<close>

text \<open>
  Claim C9 as stated fails: \<open>pipe_vl2vg\<close> returns the first component of
  \<open>communicate\<close> and never looks at the exit status. A process that exits with status 1
  and writes nothing makes it return the empty string, not fail.
\<close>

theorem pipe_ignores_failure_counterexample:
  "dumps ex_env ex_merged = Inr ''{}'' \<and> vl2vg ex_env ''{}'' = ([], 1) \<and>
   fst (pipe_vl2vg ex_env ex_merged) = Inr []"
  by (simp add: ex_env_def pipe_vl2vg_def)

text \<open>
  Claim C9, amended. For every description that \<open>json.dumps\<close> serialises, the bridge
  starts the process, hands it the serialised text and returns what the process wrote on
  its standard output, whatever the exit status and also when the output is empty.
\<close>

theorem pipe_returns_process_output:
  assumes "dumps e json_in = Inr s"
  shows "pipe_vl2vg e json_in = (Inr (fst (vl2vg e s)), [Popen ''vl2vg'', Communicate s])"
  using assms by (simp add: pipe_vl2vg_def)

theorem pipe_returns_process_output_witness:
  "dumps ex_env ex_merged = Inr ''{}'' \<and>
   pipe_vl2vg ex_env ex_merged = (Inr [], [Popen ''vl2vg'', Communicate ''{}''])"
proof -
  have d: "dumps ex_env ex_merged = Inr ''{}''" by (simp add: ex_env_def)
  from pipe_returns_process_output[OF d] d show ?thesis by (simp add: ex_env_def)
qed

section \<open>A missing configuration file\<close>

text \<open>
  Claim C8 as stated fails in the error it names: the script defines no
  \<open>ConfigNotFoundError\<close> and does not test whether the file exists; \<open>read_config\<close> opens
  the file, and for the chart type \<open>pie\<close>, which has no configuration file, the
  \<open>IOError\<close> of \<open>open\<close> comes out of \<open>read_config\<close> and of \<open>run\<close>.
\<close>

theorem missing_config_error_counterexample:
  "config_path ex_pie = ''config_files//pie_config.json'' \<and>
   read_config ex_env ex_pie = Inl IOError \<and>
   fst (run ex_env ex_pie initial_store) = Inl IOError"
  by code_simp

text \<open>
  Claim C8, amended. For every object whose configuration file
  \<open><config_dir>/<graph_type>_config.json\<close> cannot be opened, \<open>read_config\<close> fails with
  the \<open>IOError\<close> of \<open>open\<close>, \<open>parse_jsons\<close> fails, and \<open>run\<close> fails without a single
  effect on the outside: the renderer is not started and nothing is written.
\<close>

theorem missing_config_aborts_run:
  assumes "read_json_file e (config_path self) = Inl IOError"
  shows "read_config e self = Inl IOError \<and>
         (\<exists>err. parse_jsons e st self = Inl err) \<and>
         (\<exists>err st'. run e self st0 = (Inl err, st', []))"
proof -
  have rc: "read_config e self = Inl IOError"
    using assms by (simp add: read_config_def)
  have pj: "\<exists>err. parse_jsons e st self = Inl err" for st
    by (cases "cls self")
       (auto simp: parse_jsons_barbase_def parse_jsons_heatmap_def rc ebind_def split: sum.splits)
  have "\<exists>err st'. run e self st0 = (Inl err, st', [])"
  proof (cases "read_json e self st0")
    case (Pair r st1)
    show ?thesis
    proof (cases r)
      case None
      from pj[of st1] obtain err where "parse_jsons e st1 self = Inl err" ..
      with Pair None show ?thesis by (simp add: run_def)
    next
      case (Some err)
      with Pair show ?thesis by (simp add: run_def)
    qed
  qed
  with rc pj show ?thesis by blast
qed

theorem missing_config_aborts_run_witness:
  "read_json_file ex_env (config_path ex_pie) = Inl IOError \<and>
   read_config ex_env ex_pie = Inl IOError \<and>
   (\<exists>err. parse_jsons ex_env (ex_store_of ex_records) ex_pie = Inl err) \<and>
   (\<exists>err st'. run ex_env ex_pie initial_store = (Inl err, st', []))"
proof -
  have h: "read_json_file ex_env (config_path ex_pie) = Inl IOError"
    by code_simp
  from missing_config_aborts_run[OF h] h show ?thesis by blast
qed

section \<open>The shared list of records\<close>

text \<open>
  Claim C3 does not hold of the code: the list \<open>__input_jsons\<close> belongs to the class and
  \<open>+=\<close> extends it in place, so the records that one object loads stay in the list that
  the next object reads. The second object below lists a directory with one record file;
  after its \<open>read_json\<close> its table holds the two records of the first object as well.
\<close>

theorem read_json_shares_records:
  "(case read_json ex_env ex_bar initial_store of
      (r1, st1) \<Rightarrow>
        (case read_json ex_env ex_bar2 st1 of
           (r2, st2) \<Rightarrow>
             r1 = None \<and> r2 = None \<and>
             input_jsons st1 ex_bar = ex_records \<and>
             listdir ex_env (input_path ex_bar2) = Some [''BFS_web.json''] \<and>
             input_jsons st2 ex_bar2 = ex_records @ [ex_heat_records ! 2] \<and>
             input_jsons_ref st2 ex_bar2 = input_jsons_ref st2 ex_bar))"
  by code_simp

end
